theory Spec2Isabelle
  imports Complex_Main "HOL-Library.Sublist" "HOL-Library.Multiset" "HOL-Library.AList"
    "HOL-Library.Char_ord" "HOL-Library.List_Lexorder" "HOL-Library.Product_Lexorder"
begin

section \<open>The loaded table and the sidebar filters\<close>

text \<open>
  The dashboard script works on \<^verbatim>\<open>df_full\<close>, the table the loader returned.
  The filter and the aggregations read seven of its columns; a row of the model carries
  exactly those. After the loader the three measures hold no missing value (the loader
  ends each with \<^verbatim>\<open>fillna(0)\<close>) and the categorical columns hold text, so a
  measure is a number and a label is a string. Numbers are real numbers: rounding of
  the 64-bit floats is not modelled.

  A column of whole numbers is read as int64, and the sum of an int64 column wraps
  around. A sales or profit value therefore carries the dtype of its scalar:
  \<open>Sales_int64\<close> and \<open>Profit_int64\<close> say whether it is an int64 (a float64
  otherwise). A column is int64 when all its values are.
\<close>

record row =
  Region :: string
  State :: string
  Category :: string
  Sub_Category :: string
  Sales :: real
  Profit :: real
  Discount :: real
  Sales_int64 :: bool
  Profit_int64 :: bool

type_synonym dataframe = "row list"

text \<open>The values of the four sidebar widgets.\<close>

record selection =
  regiones :: "string list"
  categorias :: "string list"
  subcats :: "string list"
  discount_range :: "real \<times> real"

text \<open>
  \<^verbatim>\<open>Series.min()\<close> and \<^verbatim>\<open>Series.max()\<close>: the result on an empty column is
  NaN, which is \<open>None\<close> here.
\<close>

fun series_min :: "real list \<Rightarrow> real option" where
  "series_min [] = None"
| "series_min (x # xs) = Some (fold min xs x)"

fun series_max :: "real list \<Rightarrow> real option" where
  "series_max [] = None"
| "series_max (x # xs) = Some (fold max xs x)"

text \<open>
  \<^verbatim>\<open>sorted(df_full[col].unique())\<close>: the distinct labels of a column, in ascending
  order of their characters.
\<close>

definition sorted_unique :: "string list \<Rightarrow> string list" where
  "sorted_unique xs = sort (remdups xs)"

text \<open>
  The default values that lines 85 to 111 compute for the widgets: every distinct
  label of the three columns, and the slider from the least to the greatest discount
  of the table. On an empty table both slider bounds are NaN and no interval of
  numbers is selected: the result is \<open>None\<close>. The widgets themselves are not
  modelled: a selection is whatever they hand to line 115.
\<close>

definition sidebar_defaults :: "dataframe \<Rightarrow> selection option" where
  "sidebar_defaults df_full =
     (case (series_min (map Discount df_full), series_max (map Discount df_full)) of
        (Some dmin, Some dmax) \<Rightarrow>
          Some \<lparr>regiones = sorted_unique (map Region df_full),
                categorias = sorted_unique (map Category df_full),
                subcats = sorted_unique (map Sub_Category df_full),
                discount_range = (dmin, dmax)\<rparr>
      | _ \<Rightarrow> None)"

subsection \<open>The filtered table\<close>

text \<open>
  Lines 115 to 121 build five boolean columns, combine them with \<^verbatim>\<open>&\<close> and
  index the table with the result. The model keeps these steps.
\<close>

definition isin :: "'a list \<Rightarrow> 'a list \<Rightarrow> bool list" where
  "isin col vals = map (\<lambda>v. v \<in> set vals) col"

definition series_ge :: "real list \<Rightarrow> real \<Rightarrow> bool list" where
  "series_ge col c = map (\<lambda>v. c \<le> v) col"

definition series_le :: "real list \<Rightarrow> real \<Rightarrow> bool list" where
  "series_le col c = map (\<lambda>v. v \<le> c) col"

definition mask_and :: "bool list \<Rightarrow> bool list \<Rightarrow> bool list" where
  "mask_and m1 m2 = map2 (\<and>) m1 m2"

definition boolean_index :: "'a list \<Rightarrow> bool list \<Rightarrow> 'a list" where
  "boolean_index rows msk = map fst (filter snd (zip rows msk))"

definition filtered :: "dataframe \<Rightarrow> selection \<Rightarrow> dataframe" where
  "filtered df_full sel =
     boolean_index df_full
       (mask_and
         (mask_and
           (mask_and
             (mask_and (isin (map Region df_full) (regiones sel))
                       (isin (map Category df_full) (categorias sel)))
             (isin (map Sub_Category df_full) (subcats sel)))
           (series_ge (map Discount df_full) (fst (discount_range sel))))
         (series_le (map Discount df_full) (snd (discount_range sel))))"

section \<open>The aggregations\<close>

text \<open>The exceptions of Python and pandas that the modelled statements can raise.\<close>

datatype exn = IndexError | KeyError string | ValueError | TypeError | AttributeError
  | OtherError string

subsection \<open>The four indicators and the colour bound\<close>

text \<open>\<^verbatim>\<open>Series.mean()\<close>: NaN (\<open>None\<close>) on an empty column.\<close>

definition series_mean :: "real list \<Rightarrow> real option" where
  "series_mean xs = (if xs = [] then None else Some (sum_list xs / real (length xs)))"

text \<open>
  \<^verbatim>\<open>Series.sum()\<close>. The sum of a float64 column is the sum of its values. The sum
  of an int64 column is computed in int64 and wraps around: it is the sum of the
  values brought into the range from \<open>- 2 ^ 63\<close> to \<open>2 ^ 63 - 1\<close> modulo \<open>2 ^ 64\<close>.
\<close>

definition wrap_int64 :: "int \<Rightarrow> int" where
  "wrap_int64 n =
     (n + 9223372036854775808) mod 18446744073709551616 - 9223372036854775808"

definition series_sum :: "bool \<Rightarrow> real list \<Rightarrow> real" where
  "series_sum int64 xs =
     (if int64 then real_of_int (wrap_int64 \<lfloor>sum_list xs\<rfloor>) else sum_list xs)"

definition total_sales :: "dataframe \<Rightarrow> real" where
  "total_sales df = series_sum (list_all Sales_int64 df) (map Sales df)"

definition total_profit :: "dataframe \<Rightarrow> real" where
  "total_profit df = series_sum (list_all Profit_int64 df) (map Profit df)"

definition avg_discount :: "dataframe \<Rightarrow> real option" where
  "avg_discount df = series_mean (map Discount df)"

text \<open>
  The quotient of two numpy numbers. With a divisor of zero numpy raises nothing: it
  warns and gives an infinity or NaN, which is \<open>None\<close> here.
\<close>

definition true_divide :: "real \<Rightarrow> real \<Rightarrow> real option" where
  "true_divide a b = (if b = 0 then None else Some (a / b))"

text \<open>Line 136: the quotient is taken only when \<^verbatim>\<open>total_sales\<close> is truthy, that is, not zero.\<close>

definition profit_margin :: "dataframe \<Rightarrow> real option" where
  "profit_margin df =
     (if total_sales df \<noteq> 0 then true_divide (total_profit df) (total_sales df) else Some 0)"

text \<open>
  Lines 147 to 149. On an empty table minimum and maximum are NaN, so is the bound,
  and the test \<^verbatim>\<open>max_abs == 0\<close> is false: the result is \<open>None\<close>.
\<close>

definition max_abs :: "dataframe \<Rightarrow> real option" where
  "max_abs df =
     (case (series_min (map Profit df), series_max (map Profit df)) of
        (Some lo, Some hi) \<Rightarrow>
          (let m = max \<bar>lo\<bar> \<bar>hi\<bar> in Some (if m = 0 then 1 else m))
      | _ \<Rightarrow> None)"

subsection \<open>Grouped sums and the worst group\<close>

text \<open>
  \<^verbatim>\<open>df.groupby(key)[val].sum()\<close>: one entry for each distinct key, the keys in
  ascending order, each with the sum of \<open>val\<close> over the rows of that key. The grouped
  sums are taken over the real numbers: they are those of a float64 column, and of an
  int64 column as long as no sum of a group leaves the int64 range.
\<close>

definition groupby_sum ::
  "(row \<Rightarrow> 'k::linorder) \<Rightarrow> (row \<Rightarrow> real) \<Rightarrow> dataframe \<Rightarrow> ('k \<times> real) list" where
  "groupby_sum key val df =
     map (\<lambda>k. (k, sum_list (map val (filter (\<lambda>r. key r = k) df))))
       (sort (remdups (map key df)))"

text \<open>
  \<^verbatim>\<open>sort_values\<close> sorts through an index permutation: it asks for the argsort of
  the key column and takes the rows at these positions. The default sorting algorithm
  of pandas (quicksort) fixes no order among equal keys, so the argsort is a parameter
  of the model; \<open>argsort_spec\<close> is all that is known about it. \<open>stable_argsort\<close> is
  one such function.
\<close>

definition take_rows :: "'a list \<Rightarrow> nat list \<Rightarrow> 'a list" where
  "take_rows xs idx = concat (map (\<lambda>i. take 1 (drop i xs)) idx)"

definition sort_values :: "(real list \<Rightarrow> nat list) \<Rightarrow> ('a \<Rightarrow> real) \<Rightarrow> 'a list \<Rightarrow> 'a list" where
  "sort_values argsort key rows = take_rows rows (argsort (map key rows))"

definition argsort_spec :: "(real list \<Rightarrow> nat list) \<Rightarrow> bool" where
  "argsort_spec argsort =
     (\<forall>keys. mset (argsort keys) = mset [0..<length keys] \<and>
             sorted (map (\<lambda>i. keys ! i) (argsort keys)))"

definition stable_argsort :: "real list \<Rightarrow> nat list" where
  "stable_argsort keys = map snd (sort_key fst (zip keys [0..<length keys]))"

text \<open>\<^verbatim>\<open>.iloc[0]\<close> raises IndexError on a table with no row.\<close>

definition iloc0 :: "'a list \<Rightarrow> exn + 'a" where
  "iloc0 xs = (case xs of [] \<Rightarrow> Inl IndexError | x # _ \<Rightarrow> Inr x)"

record summary =
  s_total_sales :: real
  s_total_profit :: real
  s_avg_discount :: "real option"
  s_profit_margin :: "real option"
  s_max_abs :: "real option"
  worst_region :: string
  worst_region_profit :: real
  worst_sub :: string
  worst_sub_profit :: real

text \<open>
  Lines 133 to 158, in the order of the script. The category and sub-category
  roll-ups of the tabs are further grouped sums of the same kind and are left out.
\<close>

definition aggregation :: "(real list \<Rightarrow> nat list) \<Rightarrow> dataframe \<Rightarrow> exn + summary" where
  "aggregation argsort df =
     (case iloc0 (sort_values argsort snd (groupby_sum Region Profit df)) of
        Inl e \<Rightarrow> Inl e
      | Inr reg \<Rightarrow>
         (case iloc0 (sort_values argsort snd (groupby_sum Sub_Category Profit df)) of
            Inl e \<Rightarrow> Inl e
          | Inr sub \<Rightarrow>
              Inr \<lparr>s_total_sales = total_sales df, s_total_profit = total_profit df,
                   s_avg_discount = avg_discount df, s_profit_margin = profit_margin df,
                   s_max_abs = max_abs df,
                   worst_region = fst reg, worst_region_profit = snd reg,
                   worst_sub = fst sub, worst_sub_profit = snd sub\<rparr>))"

subsection \<open>The state by region matrix\<close>

text \<open>
  A matrix with labelled rows and columns, stored by column as pandas does: \<open>index\<close>
  holds the row labels, \<open>columns\<close> the labelled columns, each as long as the index.
\<close>

record 'a matrix =
  index :: "string list"
  columns :: "(string \<times> 'a list) list"

text \<open>
  \<^verbatim>\<open>.unstack()\<close> of a series grouped by (State, Region): the states become the
  row labels and the regions the column labels, both ascending; a pair with no group
  gives NaN (\<open>None\<close>), which \<^verbatim>\<open>.fillna(0)\<close> replaces by zero.
\<close>

definition unstack :: "((string \<times> string) \<times> real) list \<Rightarrow> real option matrix" where
  "unstack grouped =
     (let states = sorted_unique (map (fst \<circ> fst) grouped);
          regions = sorted_unique (map (snd \<circ> fst) grouped)
      in \<lparr>index = states,
          columns = map (\<lambda>g. (g, map (\<lambda>s. map_of grouped (s, g)) states)) regions\<rparr>)"

definition fillna0 :: "real option matrix \<Rightarrow> real matrix" where
  "fillna0 m =
     \<lparr>index = index m,
      columns = map (\<lambda>(g, c). (g, map (\<lambda>v. case v of None \<Rightarrow> 0 | Some x \<Rightarrow> x) c)) (columns m)\<rparr>"

text \<open>\<^verbatim>\<open>pivot.sum(axis=1)\<close>: the sum of every row over all columns.\<close>

definition row_sums :: "real matrix \<Rightarrow> real list" where
  "row_sums m =
     foldl (\<lambda>acc c. map2 (+) acc c) (replicate (length (index m)) 0) (map snd (columns m))"

text \<open>
  \<^verbatim>\<open>pivot[name] = vals\<close>: a column of that label is overwritten where it stands,
  otherwise the column is appended.
\<close>

definition set_column :: "string \<Rightarrow> 'a list \<Rightarrow> 'a matrix \<Rightarrow> 'a matrix" where
  "set_column name vals m = m\<lparr>columns := AList.update name vals (columns m)\<rparr>"

definition sort_values_by ::
  "(real list \<Rightarrow> nat list) \<Rightarrow> string \<Rightarrow> real matrix \<Rightarrow> exn + real matrix" where
  "sort_values_by argsort name m =
     (case map_of (columns m) name of
        None \<Rightarrow> Inl (KeyError name)
      | Some keys \<Rightarrow>
          (let p = argsort keys
           in Inr \<lparr>index = take_rows (index m) p,
                   columns = map (\<lambda>(g, c). (g, take_rows c p)) (columns m)\<rparr>))"

definition drop_column :: "string \<Rightarrow> 'a matrix \<Rightarrow> exn + 'a matrix" where
  "drop_column name m =
     (if name \<in> fst ` set (columns m)
      then Inr (m\<lparr>columns := AList.delete name (columns m)\<rparr>)
      else Inl (KeyError name))"

definition head :: "nat \<Rightarrow> 'a matrix \<Rightarrow> 'a matrix" where
  "head n m = \<lparr>index = take n (index m), columns = map (\<lambda>(g, c). (g, take n c)) (columns m)\<rparr>"

definition MAX_STATES :: nat where
  "MAX_STATES = 25"

text \<open>Lines 367 to 381.\<close>

definition pivot :: "(real list \<Rightarrow> nat list) \<Rightarrow> dataframe \<Rightarrow> exn + real matrix" where
  "pivot argsort df =
     (let p0 = fillna0 (unstack (groupby_sum (\<lambda>r. (State r, Region r)) Profit df));
          p1 = set_column ''Total'' (row_sums p0) p0
      in case sort_values_by argsort ''Total'' p1 of
           Inl e \<Rightarrow> Inl e
         | Inr p2 \<Rightarrow>
            (case drop_column ''Total'' p2 of
               Inl e \<Rightarrow> Inl e
             | Inr p3 \<Rightarrow>
                 Inr (if length (index p3) > MAX_STATES then head MAX_STATES p3 else p3)))"

subsection \<open>One pass of the script\<close>

text \<open>
  A pass of the script from line 115 on: it filters, stops with a warning when nothing
  is left (lines 123 to 125), and otherwise computes the aggregates. An exception of an
  aggregation ends the pass.
\<close>

datatype outcome = Stopped string | Rendered summary "real matrix" | Failed exn

definition empty_warning :: string where
  "empty_warning =
     ''No hay datos para los filtros seleccionados. Ajusta los filtros en la barra lateral.''"

definition render_pass ::
  "(real list \<Rightarrow> nat list) \<Rightarrow> dataframe \<Rightarrow> selection \<Rightarrow> outcome" where
  "render_pass argsort df_full sel =
     (let df = filtered df_full sel
      in if df = [] then Stopped empty_warning
         else (case aggregation argsort df of
                 Inl e \<Rightarrow> Failed e
               | Inr s \<Rightarrow>
                  (case pivot argsort df of
                     Inl e \<Rightarrow> Failed e
                   | Inr p \<Rightarrow> Rendered s p)))"

section \<open>Tables as pandas parses them\<close>

text \<open>
  Before the loader has normalised it, a table is what \<^verbatim>\<open>pd.read_csv\<close> returned:
  named columns in file order, each with a dtype and its cells. A cell is missing
  (NaN or NaT), a text, a number, a boolean or a timestamp.
\<close>

datatype cell = NA | Txt string | Num real | Flag bool | Stamp int

text \<open>
  The dtypes that the script tells apart; \<open>float64\<close> stands for every numeric dtype.
\<close>

datatype dtype = object | float64 | bool_dtype | datetime64

record column =
  dtype :: dtype
  cells :: "cell list"

type_synonym frame = "(string \<times> column) list"

text \<open>
  The functions of pandas whose grammar is not code of this repository are parameters
  of the model:
  \<^item> \<open>str_accessor\<close>: whether the \<^verbatim>\<open>.str\<close> accessor accepts the cells of a column
    (it raises AttributeError on a column in which it finds no text);
  \<^item> \<open>parse_number\<close>: what \<^verbatim>\<open>pd.to_numeric\<close> makes of one string, \<open>None\<close> when it
    raises;
  \<^item> \<open>to_datetime\<close>: \<^verbatim>\<open>pd.to_datetime\<close> on the cells of a column, raising on a cell
    it cannot parse;
  \<^item> \<open>to_datetime_coerce\<close> and \<open>to_numeric_coerce\<close>: the same two conversions with
    \<^verbatim>\<open>errors="coerce"\<close>, where a cell that cannot be parsed becomes missing;
  \<^item> \<open>str_of\<close>: Python's \<^verbatim>\<open>str\<close> of a number, a boolean or a timestamp.
\<close>

record pandas =
  str_accessor :: "cell list \<Rightarrow> bool"
  parse_number :: "string \<Rightarrow> cell option"
  to_datetime :: "cell list \<Rightarrow> exn + cell list"
  to_datetime_coerce :: "cell list \<Rightarrow> exn + cell list"
  to_numeric_coerce :: "column \<Rightarrow> cell list"
  str_of :: "cell \<Rightarrow> string"

subsection \<open>Type coercion\<close>

text \<open>
  \<^verbatim>\<open>df.drop_duplicates()\<close> keeps the first of the rows that agree in every column.
\<close>

definition frame_rows :: "frame \<Rightarrow> cell list list" where
  "frame_rows df = transpose (map (cells \<circ> snd) df)"

fun first_seen :: "'a list \<Rightarrow> 'a list \<Rightarrow> bool list" where
  "first_seen seen [] = []"
| "first_seen seen (x # xs) = (x \<notin> set seen) # first_seen (x # seen) xs"

definition drop_duplicates :: "frame \<Rightarrow> frame" where
  "drop_duplicates df =
     (let keep = first_seen [] (frame_rows df)
      in map (\<lambda>(name, c). (name, c\<lparr>cells := boolean_index (cells c) keep\<rparr>)) df)"

text \<open>
  \<^verbatim>\<open>df[col].str.replace('[$,]', '', regex=True)\<close>. Where the \<^verbatim>\<open>.str\<close> accessor
  accepts the column, a text loses its dollar signs and commas and any other cell
  becomes missing; where it does not, it raises AttributeError.
\<close>

definition strip_currency :: "string \<Rightarrow> string" where
  "strip_currency s = filter (\<lambda>c. c \<noteq> CHR ''$'' \<and> c \<noteq> CHR '','') s"

fun is_text :: "cell \<Rightarrow> bool" where
  "is_text (Txt s) = True"
| "is_text c = False"

definition str_replace :: "pandas \<Rightarrow> cell list \<Rightarrow> exn + cell list" where
  "str_replace P cs =
     (if str_accessor P cs
      then Inr (map (\<lambda>c. case c of Txt s \<Rightarrow> Txt (strip_currency s) | _ \<Rightarrow> NA) cs)
      else Inl AttributeError)"

text \<open>
  \<^verbatim>\<open>pd.to_numeric\<close> on the cells of an object column: every text must parse, a
  missing cell stays missing, and one text that does not parse raises for the whole
  column.
\<close>

fun to_numeric :: "pandas \<Rightarrow> cell list \<Rightarrow> exn + cell list" where
  "to_numeric P [] = Inr []"
| "to_numeric P (c # cs) =
     (case (case c of Txt s \<Rightarrow> parse_number P s
                    | NA \<Rightarrow> Some NA
                    | Num r \<Rightarrow> Some (Num r)
                    | Flag b \<Rightarrow> Some (Num (if b then 1 else 0))
                    | Stamp t \<Rightarrow> None) of
        None \<Rightarrow> Inl (case c of Stamp t \<Rightarrow> TypeError | _ \<Rightarrow> ValueError)
      | Some v \<Rightarrow>
         (case to_numeric P cs of Inl e \<Rightarrow> Inl e | Inr vs \<Rightarrow> Inr (v # vs)))"

text \<open>
  The body of the loop of \<^verbatim>\<open>data_cleaning\<close> (lines 36 to 48) for one column. Both
  attempts stand in a \<^verbatim>\<open>try\<close> whose handler is \<^verbatim>\<open>except Exception: pass\<close>: an
  exception of the first attempt leads to the second, one of the second leaves the
  column as it was.
\<close>

definition coerce_column :: "pandas \<Rightarrow> column \<Rightarrow> exn + column" where
  "coerce_column P c =
     (if dtype c = object then
        (case (case str_replace P (cells c) of
                 Inl e \<Rightarrow> Inl e
               | Inr cs \<Rightarrow> to_numeric P cs) of
           Inr ns \<Rightarrow> Inr \<lparr>dtype = float64, cells = ns\<rparr>
         | Inl e \<Rightarrow>
            (case to_datetime P (cells c) of
               Inr ds \<Rightarrow> Inr \<lparr>dtype = datetime64, cells = ds\<rparr>
             | Inl e' \<Rightarrow> Inr c))
      else Inr c)"

fun coerce_columns :: "pandas \<Rightarrow> frame \<Rightarrow> exn + frame" where
  "coerce_columns P [] = Inr []"
| "coerce_columns P ((name, c) # rest) =
     (case coerce_column P c of
        Inl e \<Rightarrow> Inl e
      | Inr c' \<Rightarrow>
         (case coerce_columns P rest of
            Inl e \<Rightarrow> Inl e
          | Inr rest' \<Rightarrow> Inr ((name, c') # rest')))"

definition data_cleaning :: "pandas \<Rightarrow> frame \<Rightarrow> exn + frame" where
  "data_cleaning P df = coerce_columns P (drop_duplicates df)"

subsection \<open>The loader\<close>

text \<open>
  The home directory as \<^verbatim>\<open>os.walk\<close> sees it: a directory has a name, its
  sub-directories in the order the operating system lists them, and its files by name.
  A directory that \<^verbatim>\<open>os.walk\<close> does not enter (a symbolic link, a directory it may
  not read) is a directory with no entries here.
\<close>

datatype 'c dir = Dir (dname: string) (subdirs: "'c dir list") (files: "string \<Rightarrow> 'c option")

definition path_join :: "string \<Rightarrow> string \<Rightarrow> string" where
  "path_join a b = a @ ''/'' @ b"

fun walk :: "string \<Rightarrow> 'c dir \<Rightarrow> (string \<times> string list \<times> (string \<Rightarrow> 'c option)) list" where
  "walk dirpath (Dir name subs fs) =
     (dirpath, map dname subs, fs) #
     concat (map (\<lambda>d. walk (path_join dirpath (dname d)) d) subs)"

definition numeric_columns :: "string list" where
  "numeric_columns = [''Sales'', ''Profit'', ''Discount'', ''Quantity'']"

definition categorical_columns :: "string list" where
  "categorical_columns =
     [''Region'', ''State'', ''City'', ''Category'', ''Sub-Category'', ''Segment'', ''Customer ID'']"

definition fillna :: "cell \<Rightarrow> column \<Rightarrow> column" where
  "fillna v c = c\<lparr>cells := map (\<lambda>x. if x = NA then v else x) (cells c)\<rparr>"

text \<open>
  \<^verbatim>\<open>Series.astype(str)\<close> applies \<^verbatim>\<open>str\<close> to every cell, the missing ones
  included: NaN becomes the text \<^verbatim>\<open>nan\<close> and NaT the text \<^verbatim>\<open>NaT\<close>. (The script
  tests \<^verbatim>\<open>dtype == object\<close> for text columns, which is the pandas of before version 3,
  where \<^verbatim>\<open>astype(str)\<close> works this way.)
\<close>

definition astype_str :: "pandas \<Rightarrow> column \<Rightarrow> column" where
  "astype_str P c =
     \<lparr>dtype = object,
      cells = map (\<lambda>x. Txt (case x of
                               NA \<Rightarrow> (if dtype c = datetime64 then ''NaT'' else ''nan'')
                             | Txt s \<Rightarrow> s
                             | _ \<Rightarrow> str_of P x)) (cells c)\<rparr>"

text \<open>
  \<^verbatim>\<open>for col in names: if col in df.columns: df[col] = f(df[col])\<close>
\<close>

fun assign_present :: "(column \<Rightarrow> column) \<Rightarrow> string list \<Rightarrow> frame \<Rightarrow> frame" where
  "assign_present f [] df = df"
| "assign_present f (col # cols) df =
     assign_present f cols
       (case map_of df col of None \<Rightarrow> df | Some c \<Rightarrow> AList.update col (f c) df)"

text \<open>
  Lines 61 to 74 for one file of the wanted name: the table, \<open>None\<close> when the parsed
  table has no column \<^verbatim>\<open>Order Date\<close> (the loop then goes on), or the exception of
  pandas that ends the loader.
\<close>

definition load_file :: "('c \<Rightarrow> exn + frame) \<Rightarrow> pandas \<Rightarrow> 'c \<Rightarrow> exn + frame option" where
  "load_file read_csv P contents =
     (case read_csv contents of
        Inl e \<Rightarrow> Inl e
      | Inr raw \<Rightarrow>
         (case data_cleaning P raw of
            Inl e \<Rightarrow> Inl e
          | Inr df \<Rightarrow>
             (case map_of df ''Order Date'' of
                None \<Rightarrow> Inr None
              | Some od \<Rightarrow>
                 (case to_datetime_coerce P (cells od) of
                    Inl e \<Rightarrow> Inl e
                  | Inr ds \<Rightarrow>
                     Inr (Some
                       (assign_present (\<lambda>c. fillna (Txt ''Unknown'') (astype_str P c))
                          categorical_columns
                          (assign_present
                             (\<lambda>c. fillna (Num 0) \<lparr>dtype = float64, cells = to_numeric_coerce P c\<rparr>)
                             numeric_columns
                             (AList.update ''Order Date'' \<lparr>dtype = datetime64, cells = ds\<rparr> df))))))))"

text \<open>
  The error of the loader itself (line 77), with the file name and the search root of
  its message, and an exception that came out of pandas.
\<close>

datatype load_error = NotFound string string | Raised exn

fun search ::
  "('c \<Rightarrow> exn + frame) \<Rightarrow> pandas \<Rightarrow> string \<Rightarrow> string \<Rightarrow>
   (string \<times> string list \<times> (string \<Rightarrow> 'c option)) list \<Rightarrow> load_error + frame" where
  "search read_csv P nombre_archivo ruta_base [] = Inl (NotFound nombre_archivo ruta_base)"
| "search read_csv P nombre_archivo ruta_base ((dirpath, dirnames, fs) # rest) =
     (case fs nombre_archivo of
        None \<Rightarrow> search read_csv P nombre_archivo ruta_base rest
      | Some contents \<Rightarrow>
         (case load_file read_csv P contents of
            Inl e \<Rightarrow> Inl (Raised e)
          | Inr None \<Rightarrow> search read_csv P nombre_archivo ruta_base rest
          | Inr (Some df) \<Rightarrow> Inr df))"

text \<open>
  \<^verbatim>\<open>data_loader\<close>: \<open>ruta_base\<close> is the path of the home directory and \<open>home\<close> its
  contents.
\<close>

definition data_loader ::
  "('c \<Rightarrow> exn + frame) \<Rightarrow> pandas \<Rightarrow> string \<Rightarrow> 'c dir \<Rightarrow> string \<Rightarrow> load_error + frame" where
  "data_loader read_csv P ruta_base home nombre_archivo =
     search read_csv P nombre_archivo ruta_base (walk ruta_base home)"

text \<open>
  The files of a given name below a directory, at any depth, in the order in which
  the walk meets them.
\<close>

fun files_named :: "string \<Rightarrow> 'c dir \<Rightarrow> 'c list" where
  "files_named n (Dir name subs fs) =
     (case fs n of None \<Rightarrow> [] | Some c \<Rightarrow> [c]) @ concat (map (files_named n) subs)"

section \<open>Concrete inputs\<close>

text \<open>
  One instance of the pandas parameters, for running the model on concrete tables. It
  reads plain decimal literals (an optional sign, digits, an optional fraction; the
  empty string is NaN) and dates written \<^verbatim>\<open>YYYY-MM-DD\<close>; pandas reads these the
  same way and reads more besides. A timestamp is the number \<open>YYYYMMDD\<close>.
\<close>

definition digit_val :: "char \<Rightarrow> int option" where
  "digit_val c =
     (if CHR ''0'' \<le> c \<and> c \<le> CHR ''9'' then Some (of_char c - of_char CHR ''0'') else None)"

fun digits_val :: "string \<Rightarrow> int \<Rightarrow> int option" where
  "digits_val [] acc = Some acc"
| "digits_val (c # cs) acc =
     (case digit_val c of None \<Rightarrow> None | Some d \<Rightarrow> digits_val cs (10 * acc + d))"

definition parse_decimal :: "string \<Rightarrow> cell option" where
  "parse_decimal s =
     (if s = [] then Some NA
      else
        (let neg = (take 1 s = ''-'');
             body = (if take 1 s = ''-'' \<or> take 1 s = ''+'' then drop 1 s else s);
             ip = takeWhile (\<lambda>c. c \<noteq> CHR ''.'') body;
             fp = drop 1 (dropWhile (\<lambda>c. c \<noteq> CHR ''.'') body)
         in if ip = [] \<and> fp = [] then None
            else (case (digits_val ip 0, digits_val fp 0) of
                    (Some i, Some f) \<Rightarrow>
                      Some (Num ((if neg then - 1 else 1) *
                                 (real_of_int i + real_of_int f / 10 ^ length fp)))
                  | _ \<Rightarrow> None)))"

definition days_in_month :: "int \<Rightarrow> int \<Rightarrow> int" where
  "days_in_month y m =
     (if m \<in> {4, 6, 9, 11} then 30
      else if m = 2 then (if y mod 4 = 0 \<and> (y mod 100 \<noteq> 0 \<or> y mod 400 = 0) then 29 else 28)
      else 31)"

definition parse_iso_date :: "string \<Rightarrow> int option" where
  "parse_iso_date s =
     (if length s = 10 \<and> take 1 (drop 4 s) = ''-'' \<and> take 1 (drop 7 s) = ''-'' then
        (case (digits_val (take 4 s) 0, digits_val (take 2 (drop 5 s)) 0,
               digits_val (drop 8 s) 0) of
           (Some y, Some m, Some d) \<Rightarrow>
             (if 1678 \<le> y \<and> y \<le> 2261 \<and> 1 \<le> m \<and> m \<le> 12 \<and> 1 \<le> d \<and> d \<le> days_in_month y m
              then Some (y * 10000 + m * 100 + d) else None)
         | _ \<Rightarrow> None)
      else None)"

fun iso_strict :: "cell list \<Rightarrow> exn + cell list" where
  "iso_strict [] = Inr []"
| "iso_strict (c # cs) =
     (case (case c of Txt s \<Rightarrow> map_option Stamp (parse_iso_date s)
                    | NA \<Rightarrow> Some NA
                    | Stamp t \<Rightarrow> Some (Stamp t)
                    | _ \<Rightarrow> None) of
        None \<Rightarrow> Inl ValueError
      | Some v \<Rightarrow> (case iso_strict cs of Inl e \<Rightarrow> Inl e | Inr vs \<Rightarrow> Inr (v # vs)))"

definition iso_coerce :: "cell list \<Rightarrow> exn + cell list" where
  "iso_coerce cs =
     Inr (map (\<lambda>c. case c of
                     Txt s \<Rightarrow> (case parse_iso_date s of None \<Rightarrow> NA | Some t \<Rightarrow> Stamp t)
                   | Stamp t \<Rightarrow> Stamp t
                   | _ \<Rightarrow> NA) cs)"

definition decimal_coerce :: "column \<Rightarrow> cell list" where
  "decimal_coerce c =
     map (\<lambda>x. case x of
                Txt s \<Rightarrow> (case parse_decimal s of None \<Rightarrow> NA | Some v \<Rightarrow> v)
              | Num r \<Rightarrow> Num r
              | Flag b \<Rightarrow> Num (if b then 1 else 0)
              | Stamp t \<Rightarrow> Num (real_of_int t)
              | NA \<Rightarrow> NA) (cells c)"

function show_int :: "int \<Rightarrow> string" where
  "show_int n =
     (if n < 10 then [char_of (of_char CHR ''0'' + n)]
      else show_int (n div 10) @ [char_of (of_char CHR ''0'' + n mod 10)])"
  by pat_completeness auto
termination
  by (relation "measure nat") auto

definition show_cell :: "cell \<Rightarrow> string" where
  "show_cell c =
     (case c of
        Flag b \<Rightarrow> (if b then ''True'' else ''False'')
      | Stamp t \<Rightarrow> show_int t
      | Num r \<Rightarrow> (if r < 0 then ''-'' else []) @ show_int \<lfloor>\<bar>r\<bar>\<rfloor> @ ''.0''
      | Txt s \<Rightarrow> s
      | NA \<Rightarrow> ''nan'')"

definition pandas_model :: pandas where
  "pandas_model =
     \<lparr>str_accessor = (\<lambda>cs. list_ex is_text cs \<or> list_all (\<lambda>c. c = NA) cs),
      parse_number = parse_decimal, to_datetime = iso_strict, to_datetime_coerce = iso_coerce,
      to_numeric_coerce = decimal_coerce, str_of = show_cell\<rparr>"

text \<open>
  The two orders of the scenario of the specification, and two more. Their sales and
  profits are float64 values.
\<close>

definition east_row :: row where
  "east_row =
     \<lparr>Region = ''East'', State = ''Ohio'', Category = ''Chairs'', Sub_Category = ''Chairs'',
      Sales = 100, Profit = 20, Discount = 0.1,
      Sales_int64 = False, Profit_int64 = False\<rparr>"

definition west_row :: row where
  "west_row =
     \<lparr>Region = ''West'', State = ''Utah'', Category = ''Tables'', Sub_Category = ''Tables'',
      Sales = 200, Profit = - 50, Discount = 0.5,
      Sales_int64 = False, Profit_int64 = False\<rparr>"

definition unit_row :: row where
  "unit_row =
     \<lparr>Region = ''East'', State = ''Ohio'', Category = ''Chairs'', Sub_Category = ''Chairs'',
      Sales = 10, Profit = 1, Discount = 0,
      Sales_int64 = False, Profit_int64 = False\<rparr>"

definition total_row :: row where
  "total_row =
     \<lparr>Region = ''Total'', State = ''Utah'', Category = ''Tables'', Sub_Category = ''Tables'',
      Sales = 50, Profit = 7, Discount = 0,
      Sales_int64 = False, Profit_int64 = False\<rparr>"

text \<open>
  Two orders of a table whose sales and profits are whole numbers, read as int64: the
  greatest int64 and one.
\<close>

definition huge_row :: row where
  "huge_row =
     \<lparr>Region = ''East'', State = ''Ohio'', Category = ''Chairs'', Sub_Category = ''Chairs'',
      Sales = 9223372036854775807, Profit = 2, Discount = 0,
      Sales_int64 = True, Profit_int64 = True\<rparr>"

definition small_row :: row where
  "small_row =
     \<lparr>Region = ''East'', State = ''Ohio'', Category = ''Chairs'', Sub_Category = ''Chairs'',
      Sales = 1, Profit = 3, Discount = 0,
      Sales_int64 = True, Profit_int64 = True\<rparr>"

definition all_selected :: selection where
  "all_selected =
     \<lparr>regiones = [''East'', ''West''], categorias = [''Chairs'', ''Tables''],
      subcats = [''Chairs'', ''Tables''], discount_range = (0, 1)\<rparr>"

text \<open>What the script computes from the two orders of the scenario when all is selected.\<close>

definition scenario_summary :: summary where
  "scenario_summary =
     \<lparr>s_total_sales = 300, s_total_profit = - 30, s_avg_discount = Some 0.3,
      s_profit_margin = Some (- 0.1), s_max_abs = Some 50,
      worst_region = ''West'', worst_region_profit = - 50,
      worst_sub = ''Tables'', worst_sub_profit = - 50\<rparr>"

definition scenario_pivot :: "real matrix" where
  "scenario_pivot =
     \<lparr>index = [''Utah'', ''Ohio''], columns = [(''East'', [0, 20]), (''West'', [- 50, 0])]\<rparr>"

text \<open>
  Parsed files: one with an order date, and a region column whose second cell is
  missing; one whose third row repeats the first, and what the cleaning makes of it;
  one without an order date.
\<close>

definition orders_frame :: frame where
  "orders_frame =
     [(''Order Date'', \<lparr>dtype = object, cells = [Txt ''2020-01-15'', Txt ''2020-02-20'']\<rparr>),
      (''Region'', \<lparr>dtype = object, cells = [Txt ''East'', NA]\<rparr>),
      (''Sales'', \<lparr>dtype = object, cells = [Txt ''$1,200'', Txt ''$950'']\<rparr>)]"

definition raw_sample :: frame where
  "raw_sample =
     [(''Order Date'',
       \<lparr>dtype = object, cells = [Txt ''2020-01-15'', Txt ''2020-02-20'', Txt ''2020-01-15'']\<rparr>),
      (''Region'', \<lparr>dtype = object, cells = [Txt ''East'', Txt ''West'', Txt ''East'']\<rparr>),
      (''Sales'', \<lparr>dtype = object, cells = [Txt ''$1,200'', Txt ''$950.50'', Txt ''$1,200'']\<rparr>)]"

definition cleaned_sample :: frame where
  "cleaned_sample =
     [(''Order Date'', \<lparr>dtype = datetime64, cells = [Stamp 20200115, Stamp 20200220]\<rparr>),
      (''Region'', \<lparr>dtype = object, cells = [Txt ''East'', Txt ''West'']\<rparr>),
      (''Sales'', \<lparr>dtype = float64, cells = [Num 1200, Num 950.5]\<rparr>)]"

definition notes_frame :: frame where
  "notes_frame = [(''Region'', \<lparr>dtype = object, cells = [Txt ''East'']\<rparr>)]"

definition one_file :: "string \<Rightarrow> 'c \<Rightarrow> string \<Rightarrow> 'c option" where
  "one_file name contents = (\<lambda>n. if n = name then Some contents else None)"

definition no_files :: "string \<Rightarrow> 'c option" where
  "no_files = (\<lambda>n. None)"

text \<open>
  Three home directories: one with no file of the wanted name, one whose only such
  file has no order date, and one where the file without an order date is met before
  a file with one. \<open>loaded_orders\<close> is the table the loader makes of the latter file.
\<close>

definition home_without :: "frame dir" where
  "home_without = Dir ''ana'' [Dir ''docs'' [] no_files] (one_file ''notes.txt'' notes_frame)"

definition home_notes_only :: "frame dir" where
  "home_notes_only = Dir ''ana'' [] (one_file ''superstore.csv'' notes_frame)"

definition home_two :: "frame dir" where
  "home_two =
     Dir ''ana'' [Dir ''docs'' [] (one_file ''superstore.csv'' orders_frame)]
       (one_file ''superstore.csv'' notes_frame)"

definition loaded_orders :: frame where
  "loaded_orders =
     [(''Order Date'', \<lparr>dtype = datetime64, cells = [Stamp 20200115, Stamp 20200220]\<rparr>),
      (''Region'', \<lparr>dtype = object, cells = [Txt ''East'', Txt ''nan'']\<rparr>),
      (''Sales'', \<lparr>dtype = float64, cells = [Num 1200, Num 950]\<rparr>)]"

section \<open>Properties of the filter\<close>

lemma boolean_index_map:
  "boolean_index rows (map p rows) = filter p rows"
  by (induction rows) (simp_all add: boolean_index_def)

lemma mask_and_map:
  "mask_and (map p rows) (map q rows) = map (\<lambda>r. p r \<and> q r) rows"
  by (induction rows) (simp_all add: mask_and_def)

lemma filtered_eq_filter:
  "filtered df_full sel =
     filter (\<lambda>r. Region r \<in> set (regiones sel) \<and> Category r \<in> set (categorias sel) \<and>
                 Sub_Category r \<in> set (subcats sel) \<and>
                 fst (discount_range sel) \<le> Discount r \<and>
                 Discount r \<le> snd (discount_range sel)) df_full"
proof -
  have "filtered df_full sel =
      boolean_index df_full
        (map (\<lambda>r. (((Region r \<in> set (regiones sel) \<and> Category r \<in> set (categorias sel)) \<and>
                 Sub_Category r \<in> set (subcats sel)) \<and>
                 fst (discount_range sel) \<le> Discount r) \<and>
                 Discount r \<le> snd (discount_range sel)) df_full)"
    by (simp add: filtered_def isin_def series_ge_def series_le_def map_map comp_def
        mask_and_map)
  also have "\<dots> = filter (\<lambda>r. (((Region r \<in> set (regiones sel) \<and> Category r \<in> set (categorias sel)) \<and>
                 Sub_Category r \<in> set (subcats sel)) \<and>
                 fst (discount_range sel) \<le> Discount r) \<and>
                 Discount r \<le> snd (discount_range sel)) df_full"
    by (rule boolean_index_map)
  finally show ?thesis by (simp add: conj_assoc)
qed

lemma series_min_Min: "xs \<noteq> [] \<Longrightarrow> series_min xs = Some (Min (set xs))"
proof (cases xs)
  case (Cons a as)
  then show ?thesis using Min.set_eq_fold [of a as] by simp
qed simp

lemma series_max_Max: "xs \<noteq> [] \<Longrightarrow> series_max xs = Some (Max (set xs))"
proof (cases xs)
  case (Cons a as)
  then show ?thesis using Max.set_eq_fold [of a as] by simp
qed simp

lemma filter_all: "(\<And>x. x \<in> set xs \<Longrightarrow> P x) \<Longrightarrow> filter P xs = xs"
  by (induction xs) simp_all

text \<open>
  Claim C1. For every table and every selection of the four filters, the filtered
  table holds exactly the rows whose region, category and sub-category are among the
  selected ones and whose discount lies between the two ends of the slider, both ends
  included. It is the table with the other rows left out: the rows that stay keep their
  order, and each of them is a row of the table.
\<close>

theorem filtered_exact:
  "filtered df_full sel =
     filter (\<lambda>r. Region r \<in> set (regiones sel) \<and> Category r \<in> set (categorias sel) \<and>
                 Sub_Category r \<in> set (subcats sel) \<and>
                 fst (discount_range sel) \<le> Discount r \<and>
                 Discount r \<le> snd (discount_range sel)) df_full \<and>
   subseq (filtered df_full sel) df_full \<and>
   set (filtered df_full sel) \<subseteq> set df_full"
  by (simp add: filtered_eq_filter)

text \<open>
  Claim C9. With every label of the three columns selected and the slider from the
  least to the greatest discount of the table, which are the defaults of the widgets,
  the filtered table is the whole table. The defaults exist unless the table is empty,
  and an empty table is its own filtered table under every selection.
\<close>

theorem full_selection_identity:
  "(sidebar_defaults df_full = None \<longleftrightarrow> df_full = []) \<and>
   (case sidebar_defaults df_full of
      Some sel \<Rightarrow> filtered df_full sel = df_full
    | None \<Rightarrow> \<forall>sel. filtered df_full sel = df_full)"
proof (cases "df_full = []")
  case True
  then show ?thesis
    by (simp add: sidebar_defaults_def filtered_eq_filter)
next
  case False
  define ds where "ds = map Discount df_full"
  have ne: "ds \<noteq> []" using False by (simp add: ds_def)
  have lo: "Min (set ds) \<le> Discount r" and hi: "Discount r \<le> Max (set ds)"
    if "r \<in> set df_full" for r
    using that by (simp_all add: ds_def)
  have sd: "sidebar_defaults df_full =
      Some \<lparr>regiones = sorted_unique (map Region df_full),
            categorias = sorted_unique (map Category df_full),
            subcats = sorted_unique (map Sub_Category df_full),
            discount_range = (Min (set ds), Max (set ds))\<rparr>"
    using ne by (simp add: sidebar_defaults_def series_min_Min series_max_Max ds_def)
  have "filtered df_full
      \<lparr>regiones = sorted_unique (map Region df_full),
       categorias = sorted_unique (map Category df_full),
       subcats = sorted_unique (map Sub_Category df_full),
       discount_range = (Min (set ds), Max (set ds))\<rparr> = df_full"
    unfolding filtered_eq_filter
    by (rule filter_all) (simp add: sorted_unique_def lo hi)
  with sd False show ?thesis by simp
qed

section \<open>Properties of the aggregations\<close>

text \<open>
  The colour bound of one order with profit 1 is 1, although its profit is not zero:
  the bound is 1 not only when every profit is zero.
\<close>

theorem max_abs_unit_counterexample:
  "max_abs [unit_row] = Some 1 \<and> Profit unit_row \<noteq> 0"
  by (simp add: max_abs_def unit_row_def)

text \<open>
  Claim C4, amended. For every non-empty filtered table the colour bound is a number
  that is at least the magnitude of every profit of the table; it is 1 when all
  profits are zero; and when some profit is not zero it is the greatest magnitude of a
  profit (which may itself be 1).
\<close>

theorem max_abs_bound:
  assumes "df \<noteq> []"
  shows "\<exists>m. max_abs df = Some m \<and> (\<forall>r\<in>set df. \<bar>Profit r\<bar> \<le> m) \<and>
            ((\<forall>r\<in>set df. Profit r = 0) \<longrightarrow> m = 1) \<and>
            ((\<exists>r\<in>set df. Profit r \<noteq> 0) \<longrightarrow> (\<exists>r\<in>set df. m = \<bar>Profit r\<bar>))"
proof -
  define ps where "ps = map Profit df"
  define lo where "lo = Min (set ps)"
  define hi where "hi = Max (set ps)"
  define m where "m = max \<bar>lo\<bar> \<bar>hi\<bar>"
  have ne: "ps \<noteq> []" using assms by (simp add: ps_def)
  have fin: "finite (set ps)" "set ps \<noteq> {}" using ne by simp_all
  have lo_in: "lo \<in> set ps" and hi_in: "hi \<in> set ps"
    using Min_in [OF fin] Max_in [OF fin] by (simp_all add: lo_def hi_def)
  have bnd: "lo \<le> p \<and> p \<le> hi" if "p \<in> set ps" for p
    using that by (simp add: lo_def hi_def)
  have abs_le: "\<bar>p\<bar> \<le> m" if "p \<in> set ps" for p
    using bnd [OF that] by (simp add: m_def max_def abs_if split: if_splits)
  have val: "max_abs df = Some (if m = 0 then 1 else m)"
  proof -
    have "series_min ps = Some lo" "series_max ps = Some hi"
      using ne by (simp_all add: series_min_Min series_max_Max lo_def hi_def)
    then show ?thesis
      unfolding max_abs_def ps_def [symmetric] m_def by (simp add: Let_def)
  qed
  have m_in: "\<exists>p\<in>set ps. m = \<bar>p\<bar>"
    using lo_in hi_in unfolding m_def max_def by (cases "\<bar>lo\<bar> \<le> \<bar>hi\<bar>") auto
  have zero: "m = 0 \<longleftrightarrow> (\<forall>p\<in>set ps. p = 0)"
  proof
    assume "m = 0"
    then show "\<forall>p\<in>set ps. p = 0" using abs_le by fastforce
  next
    assume "\<forall>p\<in>set ps. p = 0"
    with lo_in hi_in have "lo = 0" "hi = 0" by blast+
    then show "m = 0" by (simp add: m_def)
  qed
  have c1: "\<forall>r\<in>set df. \<bar>Profit r\<bar> \<le> (if m = 0 then 1 else m)"
  proof
    fix r assume "r \<in> set df"
    then have "\<bar>Profit r\<bar> \<le> m" by (intro abs_le) (simp add: ps_def)
    then show "\<bar>Profit r\<bar> \<le> (if m = 0 then 1 else m)" by (cases "m = 0") simp_all
  qed
  have c2: "(\<forall>r\<in>set df. Profit r = 0) \<longrightarrow> (if m = 0 then 1 else m) = 1"
    using zero by (auto simp: ps_def)
  have c3: "(\<exists>r\<in>set df. Profit r \<noteq> 0) \<longrightarrow> (\<exists>r\<in>set df. (if m = 0 then 1 else m) = \<bar>Profit r\<bar>)"
    using zero m_in by (auto simp: ps_def)
  from val c1 c2 c3 show ?thesis by blast
qed

theorem max_abs_bound_witness:
  "[east_row, west_row] \<noteq> [] \<and> max_abs [east_row, west_row] = Some 50 \<and>
   \<bar>Profit east_row\<bar> \<le> 50 \<and> \<bar>Profit west_row\<bar> \<le> 50"
  using max_abs_bound [of "[east_row, west_row]"]
  by (simp add: max_abs_def east_row_def west_row_def)

lemma aggregation_fields:
  assumes "aggregation argsort df = Inr s"
  shows "s_total_sales s = total_sales df \<and> s_total_profit s = total_profit df \<and>
         s_avg_discount s = avg_discount df \<and> s_profit_margin s = profit_margin df \<and>
         s_max_abs s = max_abs df"
proof -
  from assms obtain reg sub where
    "s = \<lparr>s_total_sales = total_sales df, s_total_profit = total_profit df,
          s_avg_discount = avg_discount df, s_profit_margin = profit_margin df,
          s_max_abs = max_abs df,
          worst_region = fst reg, worst_region_profit = snd reg,
          worst_sub = fst sub, worst_sub_profit = snd sub\<rparr>"
    unfolding aggregation_def by (simp split: sum.splits) blast
  then show ?thesis by simp
qed

lemma wrap_int64_id:
  "- 9223372036854775808 \<le> n \<Longrightarrow> n < 9223372036854775808 \<Longrightarrow> wrap_int64 n = n"
  by (simp add: wrap_int64_def)

lemma sum_list_Ints: "\<forall>x\<in>set xs. x \<in> \<int> \<Longrightarrow> sum_list xs \<in> (\<int> :: real set)"
  by (induction xs) simp_all

lemma series_sum_exact:
  assumes "\<forall>x\<in>set xs. x \<in> \<int>" and "- 9223372036854775808 \<le> sum_list xs"
    and "sum_list xs < 9223372036854775808"
  shows "series_sum int64 xs = sum_list xs"
proof (cases int64)
  case False
  then show ?thesis by (simp add: series_sum_def)
next
  case True
  from sum_list_Ints [OF assms(1)] obtain n where n: "sum_list xs = real_of_int n"
    by (auto elim: Ints_cases)
  with assms(2,3) have "- 9223372036854775808 \<le> n" "n < 9223372036854775808"
    by linarith+
  then have "wrap_int64 n = n" by (rule wrap_int64_id)
  with True n show ?thesis by (simp add: series_sum_def)
qed

text \<open>
  A table of two orders with the int64 sales \<open>2 ^ 63 - 1\<close> and 1: the sum of the
  sales column is \<open>2 ^ 63\<close>, and the total sales of the script is \<open>- 2 ^ 63\<close>.
\<close>

theorem total_sales_wraps_counterexample:
  "[huge_row, small_row] \<noteq> [] \<and>
   (\<Sum>r\<leftarrow>[huge_row, small_row]. Sales r) = 9223372036854775808 \<and>
   total_sales [huge_row, small_row] = - 9223372036854775808"
  by (simp add: total_sales_def series_sum_def wrap_int64_def huge_row_def small_row_def)

text \<open>
  Claim C6, amended. For every non-empty filtered table, total sales is the sum of the
  sales column and total profit the sum of the profit column, each as its dtype
  computes it: the sum itself for a float64 column and, for an int64 column, the sum
  brought into the int64 range modulo \<open>2 ^ 64\<close>; so it is the sum whenever the values
  are whole numbers whose sum lies in that range. The average discount is the sum of
  the discount column divided by the number of rows. The profit margin is total
  profit divided by total sales when total sales is not 0, and is 0 when total sales
  is 0; it is always a number, the quotient never being taken with a divisor of 0.
  These are the values of the summary that the aggregation returns.
\<close>

theorem kpis_of_view:
  assumes "df \<noteq> []"
  shows "(\<not> list_all Sales_int64 df \<longrightarrow> total_sales df = (\<Sum>r\<leftarrow>df. Sales r)) \<and>
         (list_all Sales_int64 df \<longrightarrow>
            total_sales df = real_of_int (wrap_int64 \<lfloor>\<Sum>r\<leftarrow>df. Sales r\<rfloor>)) \<and>
         ((\<forall>r\<in>set df. Sales r \<in> \<int>) \<and> - 9223372036854775808 \<le> (\<Sum>r\<leftarrow>df. Sales r) \<and>
          (\<Sum>r\<leftarrow>df. Sales r) < 9223372036854775808 \<longrightarrow>
            total_sales df = (\<Sum>r\<leftarrow>df. Sales r)) \<and>
         (\<not> list_all Profit_int64 df \<longrightarrow> total_profit df = (\<Sum>r\<leftarrow>df. Profit r)) \<and>
         (list_all Profit_int64 df \<longrightarrow>
            total_profit df = real_of_int (wrap_int64 \<lfloor>\<Sum>r\<leftarrow>df. Profit r\<rfloor>)) \<and>
         ((\<forall>r\<in>set df. Profit r \<in> \<int>) \<and> - 9223372036854775808 \<le> (\<Sum>r\<leftarrow>df. Profit r) \<and>
          (\<Sum>r\<leftarrow>df. Profit r) < 9223372036854775808 \<longrightarrow>
            total_profit df = (\<Sum>r\<leftarrow>df. Profit r)) \<and>
         avg_discount df = Some ((\<Sum>r\<leftarrow>df. Discount r) / real (length df)) \<and>
         (total_sales df \<noteq> 0 \<longrightarrow>
            profit_margin df = Some (total_profit df / total_sales df)) \<and>
         (total_sales df = 0 \<longrightarrow> profit_margin df = Some 0) \<and>
         (\<exists>m. profit_margin df = Some m) \<and>
         (\<forall>s. aggregation argsort df = Inr s \<longrightarrow>
            s_total_sales s = total_sales df \<and> s_total_profit s = total_profit df \<and>
            s_avg_discount s = avg_discount df \<and> s_profit_margin s = profit_margin df)"
proof -
  have s1: "\<not> list_all Sales_int64 df \<longrightarrow> total_sales df = (\<Sum>r\<leftarrow>df. Sales r)"
    and s2: "list_all Sales_int64 df \<longrightarrow>
            total_sales df = real_of_int (wrap_int64 \<lfloor>\<Sum>r\<leftarrow>df. Sales r\<rfloor>)"
    by (simp_all add: total_sales_def series_sum_def)
  have s3: "(\<forall>r\<in>set df. Sales r \<in> \<int>) \<and> - 9223372036854775808 \<le> (\<Sum>r\<leftarrow>df. Sales r) \<and>
          (\<Sum>r\<leftarrow>df. Sales r) < 9223372036854775808 \<longrightarrow>
            total_sales df = (\<Sum>r\<leftarrow>df. Sales r)"
    unfolding total_sales_def by (intro impI series_sum_exact) simp_all
  have p1: "\<not> list_all Profit_int64 df \<longrightarrow> total_profit df = (\<Sum>r\<leftarrow>df. Profit r)"
    and p2: "list_all Profit_int64 df \<longrightarrow>
            total_profit df = real_of_int (wrap_int64 \<lfloor>\<Sum>r\<leftarrow>df. Profit r\<rfloor>)"
    by (simp_all add: total_profit_def series_sum_def)
  have p3: "(\<forall>r\<in>set df. Profit r \<in> \<int>) \<and> - 9223372036854775808 \<le> (\<Sum>r\<leftarrow>df. Profit r) \<and>
          (\<Sum>r\<leftarrow>df. Profit r) < 9223372036854775808 \<longrightarrow>
            total_profit df = (\<Sum>r\<leftarrow>df. Profit r)"
    unfolding total_profit_def by (intro impI series_sum_exact) simp_all
  have avg: "avg_discount df = Some ((\<Sum>r\<leftarrow>df. Discount r) / real (length df))"
    using assms by (simp add: avg_discount_def series_mean_def)
  have m1: "total_sales df \<noteq> 0 \<longrightarrow>
            profit_margin df = Some (total_profit df / total_sales df)"
    and m2: "total_sales df = 0 \<longrightarrow> profit_margin df = Some 0"
    by (simp_all add: profit_margin_def true_divide_def)
  from m1 m2 have m3: "\<exists>m. profit_margin df = Some m" by blast
  have ag: "\<forall>s. aggregation argsort df = Inr s \<longrightarrow>
            s_total_sales s = total_sales df \<and> s_total_profit s = total_profit df \<and>
            s_avg_discount s = avg_discount df \<and> s_profit_margin s = profit_margin df"
    using aggregation_fields by blast
  from s1 s2 s3 p1 p2 p3 avg m1 m2 m3 ag show ?thesis by blast
qed

theorem kpis_of_view_witness:
  "[east_row, west_row] \<noteq> [] \<and> total_sales [east_row, west_row] = 300 \<and>
   total_profit [east_row, west_row] = - 30 \<and>
   avg_discount [east_row, west_row] = Some 0.3 \<and>
   profit_margin [east_row, west_row] = Some (- 0.1) \<and>
   list_all Sales_int64 [small_row, small_row] \<and> total_sales [small_row, small_row] = 2 \<and>
   total_sales [unit_row\<lparr>Sales := 0\<rparr>] = 0 \<and>
   profit_margin [unit_row\<lparr>Sales := 0\<rparr>] = Some 0"
proof -
  note k1 = kpis_of_view [of "[east_row, west_row]" stable_argsort]
  note k2 = kpis_of_view [of "[small_row, small_row]" stable_argsort]
  note k3 = kpis_of_view [of "[unit_row\<lparr>Sales := 0\<rparr>]" stable_argsort]
  have f: "\<not> list_all Sales_int64 [east_row, west_row]"
    "\<not> list_all Profit_int64 [east_row, west_row]"
    by (simp_all add: east_row_def)
  have sums: "(\<Sum>r\<leftarrow>[east_row, west_row]. Sales r) = 300"
    "(\<Sum>r\<leftarrow>[east_row, west_row]. Profit r) = - 30"
    "(\<Sum>r\<leftarrow>[east_row, west_row]. Discount r) / real (length [east_row, west_row]) = 0.3"
    by (simp_all add: east_row_def west_row_def)
  have a: "total_sales [east_row, west_row] = 300" "total_profit [east_row, west_row] = - 30"
    "avg_discount [east_row, west_row] = Some 0.3"
    using k1 f sums by simp_all
  then have a': "profit_margin [east_row, west_row] = Some (- 0.1)"
    using k1 by simp
  have i: "list_all Sales_int64 [small_row, small_row]"
    by (simp add: small_row_def)
  have ints: "\<forall>r\<in>set [small_row, small_row]. Sales r \<in> \<int>"
    "(\<Sum>r\<leftarrow>[small_row, small_row]. Sales r) = 2"
    by (simp_all add: small_row_def)
  have b: "total_sales [small_row, small_row] = 2"
    using k2 [THEN conjunct2, THEN conjunct2, THEN conjunct1] ints by simp
  have z: "\<not> list_all Sales_int64 [unit_row\<lparr>Sales := 0\<rparr>]"
    "(\<Sum>r\<leftarrow>[unit_row\<lparr>Sales := 0\<rparr>]. Sales r) = 0"
    by (simp_all add: unit_row_def)
  have c: "total_sales [unit_row\<lparr>Sales := 0\<rparr>] = 0"
    using k3 [THEN conjunct1] z by simp
  then have c': "profit_margin [unit_row\<lparr>Sales := 0\<rparr>] = Some 0"
    using k3 by blast
  from a a' i b c c' show ?thesis by simp
qed

lemma take_rows_Nil: "take_rows [] idx = []"
  by (induction idx) (simp_all add: take_rows_def)

lemma aggregation_empty: "aggregation argsort [] = Inl IndexError"
  by (simp add: aggregation_def groupby_sum_def sort_values_def take_rows_Nil iloc0_def)

lemma render_pass_empty:
  "filtered df_full sel = [] \<Longrightarrow> render_pass argsort df_full sel = Stopped empty_warning"
  by (simp add: render_pass_def)

lemma render_pass_nonempty:
  "filtered df_full sel \<noteq> [] \<Longrightarrow>
   render_pass argsort df_full sel =
     (case aggregation argsort (filtered df_full sel) of
        Inl e \<Rightarrow> Failed e
      | Inr s \<Rightarrow> (case pivot argsort (filtered df_full sel) of
                   Inl e \<Rightarrow> Failed e
                 | Inr p \<Rightarrow> Rendered s p))"
  by (simp add: render_pass_def Let_def)

lemma render_pass_scenario:
  "render_pass stable_argsort [east_row, west_row] all_selected =
     Rendered scenario_summary scenario_pivot"
  by code_simp

lemma filtered_narrow_scenario:
  "filtered [east_row, west_row] (all_selected\<lparr>discount_range := (0, 0.2)\<rparr>) = [east_row]"
  by code_simp

text \<open>
  Claim C5. When the filtered table is empty the pass shows the warning and stops. A
  pass that rendered has a non-empty filtered table, and what it rendered are the
  aggregates of that table; a pass that ended in an exception of an aggregation had a
  non-empty filtered table as well. So no aggregate is ever computed from an empty
  filtered table.
\<close>

theorem empty_view_stops:
  "(filtered df_full sel = [] \<longrightarrow> render_pass argsort df_full sel = Stopped empty_warning) \<and>
   (\<forall>s p. render_pass argsort df_full sel = Rendered s p \<longrightarrow>
      filtered df_full sel \<noteq> [] \<and> aggregation argsort (filtered df_full sel) = Inr s \<and>
      pivot argsort (filtered df_full sel) = Inr p) \<and>
   (\<forall>e. render_pass argsort df_full sel = Failed e \<longrightarrow> filtered df_full sel \<noteq> [])"
proof (cases "filtered df_full sel = []")
  case True
  then show ?thesis by (simp add: render_pass_empty)
next
  case False
  note rp = render_pass_nonempty [OF False, of argsort]
  show ?thesis
  proof (cases "aggregation argsort (filtered df_full sel)")
    case (Inl e)
    with rp have "render_pass argsort df_full sel = Failed e" by simp
    with False show ?thesis by simp
  next
    case s: (Inr s)
    show ?thesis
    proof (cases "pivot argsort (filtered df_full sel)")
      case (Inl e)
      with rp s have "render_pass argsort df_full sel = Failed e" by simp
      with False show ?thesis by simp
    next
      case (Inr p)
      with rp s have "render_pass argsort df_full sel = Rendered s p" by simp
      with False s Inr show ?thesis by simp
    qed
  qed
qed

theorem empty_view_stops_witness:
  "filtered [east_row, west_row] (all_selected\<lparr>categorias := []\<rparr>) = [] \<and>
   render_pass stable_argsort [east_row, west_row] (all_selected\<lparr>categorias := []\<rparr>) =
     Stopped empty_warning \<and>
   render_pass stable_argsort [east_row, west_row] all_selected =
     Rendered scenario_summary scenario_pivot \<and>
   filtered [east_row, west_row] all_selected \<noteq> [] \<and>
   aggregation stable_argsort (filtered [east_row, west_row] all_selected) =
     Inr scenario_summary \<and>
   pivot stable_argsort (filtered [east_row, west_row] all_selected) = Inr scenario_pivot"
proof -
  have e: "filtered [east_row, west_row] (all_selected\<lparr>categorias := []\<rparr>) = []"
    by (simp add: filtered_eq_filter all_selected_def)
  have "render_pass stable_argsort [east_row, west_row] (all_selected\<lparr>categorias := []\<rparr>) =
     Stopped empty_warning"
    by (rule empty_view_stops [THEN conjunct1, THEN mp, OF e])
  moreover have "filtered [east_row, west_row] all_selected \<noteq> [] \<and>
      aggregation stable_argsort (filtered [east_row, west_row] all_selected) =
        Inr scenario_summary \<and>
      pivot stable_argsort (filtered [east_row, west_row] all_selected) = Inr scenario_pivot"
    using empty_view_stops [of "[east_row, west_row]" all_selected stable_argsort,
        THEN conjunct2, THEN conjunct1] render_pass_scenario
    by blast
  ultimately show ?thesis using e render_pass_scenario by blast
qed

section \<open>Properties of the loader\<close>

lemma coerce_column_total: "\<exists>c'. coerce_column P c = Inr c'"
  by (simp add: coerce_column_def split: sum.splits)

lemma coerce_columns_total:
  "\<exists>df'. coerce_columns P df = Inr df' \<and> map fst df' = map fst df"
proof (induction df)
  case Nil
  then show ?case by simp
next
  case (Cons nc rest)
  obtain name c where nc: "nc = (name, c)" by (cases nc)
  obtain c' where c': "coerce_column P c = Inr c'"
    using coerce_column_total by blast
  from Cons.IH obtain rest' where "coerce_columns P rest = Inr rest'" "map fst rest' = map fst rest"
    by blast
  with nc c' show ?case by simp
qed

lemma drop_duplicates_names: "map fst (drop_duplicates df) = map fst df"
  by (simp add: drop_duplicates_def Let_def case_prod_beta comp_def)

lemma data_cleaning_total:
  "\<exists>df'. data_cleaning P df = Inr df' \<and> map fst df' = map fst df"
  unfolding data_cleaning_def
  using coerce_columns_total [of P "drop_duplicates df"] drop_duplicates_names [of df]
  by auto

lemma map_of_Some_key: "map_of df k = Some v \<Longrightarrow> k \<in> fst ` set df"
  by (metis map_of_SomeD fst_conv image_eqI)

lemma assign_present_keys: "fst ` set (assign_present f cols df) = fst ` set df"
proof (induction cols arbitrary: df)
  case Nil
  then show ?case by simp
next
  case (Cons col cols)
  show ?case
  proof (cases "map_of df col")
    case None
    then show ?thesis using Cons.IH [of df] by simp
  next
    case (Some c)
    then have "col \<in> fst ` set df" by (rule map_of_Some_key)
    then have "fst ` set (AList.update col (f c) df) = fst ` set df"
      by (auto simp: dom_update)
    with Some show ?thesis using Cons.IH [of "AList.update col (f c) df"] by simp
  qed
qed

lemma load_file_skip_iff:
  "load_file read_csv P c = Inr None \<longleftrightarrow>
     (\<exists>raw. read_csv c = Inr raw \<and> ''Order Date'' \<notin> fst ` set raw)"
proof (cases "read_csv c")
  case (Inl e)
  then show ?thesis by (simp add: load_file_def)
next
  case (Inr raw)
  obtain df where df: "data_cleaning P raw = Inr df" "map fst df = map fst raw"
    using data_cleaning_total by blast
  have keys: "fst ` set df = fst ` set raw"
    using df(2) by (metis set_map)
  show ?thesis
  proof (cases "map_of df ''Order Date''")
    case None
    then have "''Order Date'' \<notin> fst ` set raw"
      using keys by (simp add: map_of_eq_None_iff)
    with None Inr df show ?thesis
      by (simp add: load_file_def)
  next
    case (Some od)
    then have "''Order Date'' \<in> fst ` set df"
      by (rule map_of_Some_key)
    with Inr df keys Some show ?thesis
      by (simp add: load_file_def split: sum.splits)
  qed
qed

lemma load_file_table_has_order_date:
  assumes "load_file read_csv P c = Inr (Some df)"
  shows "''Order Date'' \<in> fst ` set df"
proof -
  from assms obtain raw cl od ds where
    "read_csv c = Inr raw" "data_cleaning P raw = Inr cl" "map_of cl ''Order Date'' = Some od"
    "to_datetime_coerce P (cells od) = Inr ds" and
    df: "df = assign_present (\<lambda>c. fillna (Txt ''Unknown'') (astype_str P c))
                          categorical_columns
                          (assign_present
                             (\<lambda>c. fillna (Num 0) \<lparr>dtype = float64, cells = to_numeric_coerce P c\<rparr>)
                             numeric_columns
                             (AList.update ''Order Date'' \<lparr>dtype = datetime64, cells = ds\<rparr> cl))"
    by (auto simp: load_file_def split: sum.splits option.splits)
  show ?thesis unfolding df by (simp add: assign_present_keys dom_update)
qed

lemma find_Some_split:
  "List.find Q xs = Some x \<Longrightarrow>
     \<exists>pre post. xs = pre @ x # post \<and> Q x \<and> (\<forall>y\<in>set pre. \<not> Q y)"
proof (induction xs)
  case Nil
  then show ?case by simp
next
  case (Cons a xs)
  show ?case
  proof (cases "Q a")
    case True
    with Cons.prems have "a = x" by simp
    with True have "a # xs = [] @ x # xs \<and> Q x \<and> (\<forall>y\<in>set []. \<not> Q y)" by simp
    then show ?thesis by blast
  next
    case False
    with Cons.prems have "List.find Q xs = Some x" by simp
    from Cons.IH [OF this] obtain pre post where
      "xs = pre @ x # post" "Q x" "\<forall>y\<in>set pre. \<not> Q y" by blast
    with False have "a # xs = (a # pre) @ x # post \<and> Q x \<and> (\<forall>y\<in>set (a # pre). \<not> Q y)"
      by simp
    then show ?thesis by blast
  qed
qed

lemma search_find:
  "search read_csv P n rb w =
     (case List.find (\<lambda>c. load_file read_csv P c \<noteq> Inr None)
             (concat (map (\<lambda>e. case snd (snd e) n of None \<Rightarrow> [] | Some c \<Rightarrow> [c]) w)) of
        None \<Rightarrow> Inl (NotFound n rb)
      | Some c \<Rightarrow>
         (case load_file read_csv P c of
            Inl e \<Rightarrow> Inl (Raised e)
          | Inr None \<Rightarrow> Inl (NotFound n rb)
          | Inr (Some df) \<Rightarrow> Inr df))"
proof (induction w)
  case Nil
  then show ?case by simp
next
  case (Cons e w)
  obtain dirpath dirnames fs where e: "e = (dirpath, dirnames, fs)" by (cases e)
  show ?case
  proof (cases "fs n")
    case None
    with e Cons.IH show ?thesis by simp
  next
    case (Some c)
    show ?thesis
    proof (cases "load_file read_csv P c = Inr None")
      case True
      with e Some Cons.IH show ?thesis by simp
    next
      case False
      with e Some show ?thesis by (simp split: sum.splits option.splits)
    qed
  qed
qed

lemma walk_files_named:
  "concat (map (\<lambda>e. case snd (snd e) n of None \<Rightarrow> [] | Some c \<Rightarrow> [c]) (walk dirpath d)) =
     files_named n d"
proof (induction dirpath d rule: walk.induct)
  case (1 dirpath name subs fs)
  have "concat (map (\<lambda>e. case snd (snd e) n of None \<Rightarrow> [] | Some c \<Rightarrow> [c])
          (concat (map (\<lambda>d. walk (path_join dirpath (dname d)) d) subs))) =
        concat (map (files_named n) subs)"
    using 1 by (induction subs) simp_all
  then show ?case by simp
qed

lemma data_loader_find:
  "data_loader read_csv P rb home n =
     (case List.find (\<lambda>c. load_file read_csv P c \<noteq> Inr None) (files_named n home) of
        None \<Rightarrow> Inl (NotFound n rb)
      | Some c \<Rightarrow>
         (case load_file read_csv P c of
            Inl e \<Rightarrow> Inl (Raised e)
          | Inr None \<Rightarrow> Inl (NotFound n rb)
          | Inr (Some df) \<Rightarrow> Inr df))"
  by (simp add: data_loader_def search_find walk_files_named)

lemma data_loader_NotFound_iff:
  "data_loader read_csv P rb home n = Inl (NotFound n' rb') \<longleftrightarrow>
     n' = n \<and> rb' = rb \<and> (\<forall>c\<in>set (files_named n home). load_file read_csv P c = Inr None)"
proof (cases "List.find (\<lambda>c. load_file read_csv P c \<noteq> Inr None) (files_named n home)")
  case None
  then have "\<forall>c\<in>set (files_named n home). load_file read_csv P c = Inr None"
    by (simp add: find_None_iff)
  with None show ?thesis by (auto simp: data_loader_find)
next
  case (Some c)
  from find_Some_split [OF Some] have c: "c \<in> set (files_named n home)"
    "load_file read_csv P c \<noteq> Inr None" by auto
  have "data_loader read_csv P rb home n \<noteq> Inl (NotFound n' rb')"
    using Some c(2) by (simp add: data_loader_find split: sum.splits option.splits)
  with c show ?thesis by blast
qed

lemma data_loader_Inr_first:
  assumes "data_loader read_csv P rb home n = Inr df"
  shows "\<exists>pre c post. files_named n home = pre @ c # post \<and>
           (\<forall>c'\<in>set pre. load_file read_csv P c' = Inr None) \<and>
           load_file read_csv P c = Inr (Some df)"
proof (cases "List.find (\<lambda>c. load_file read_csv P c \<noteq> Inr None) (files_named n home)")
  case None
  with assms show ?thesis by (simp add: data_loader_find)
next
  case (Some c)
  from find_Some_split [OF Some] obtain pre post where
    sp: "files_named n home = pre @ c # post" "\<forall>y\<in>set pre. load_file read_csv P y = Inr None"
    by auto
  from assms Some have "load_file read_csv P c = Inr (Some df)"
    by (simp add: data_loader_find split: sum.splits option.splits)
  with sp show ?thesis by blast
qed

subsection \<open>The loader on the sample directories\<close>

lemma data_loader_home_two:
  "data_loader Inr pandas_model ''/home/ana'' home_two ''superstore.csv'' = Inr loaded_orders"
  by code_simp

lemma data_loader_home_notes_only:
  "data_loader Inr pandas_model ''/home/ana'' home_notes_only ''superstore.csv'' =
     Inl (NotFound ''superstore.csv'' ''/home/ana'')"
  by code_simp

lemma files_named_home_notes_only:
  "files_named ''superstore.csv'' home_notes_only = [notes_frame]"
  by (simp add: home_notes_only_def one_file_def)

lemma files_named_home_without:
  "files_named ''superstore.csv'' home_without = []"
  by (simp add: home_without_def one_file_def no_files_def)

lemma files_named_home_two:
  "files_named ''superstore.csv'' home_two = [notes_frame, orders_frame]"
  by (simp add: home_two_def one_file_def)

lemma notes_frame_no_order_date: "''Order Date'' \<notin> fst ` set notes_frame"
  by (simp add: notes_frame_def)

text \<open>
  The home directory holds a file of the wanted name, the file parses, and the loader
  raises its not-found error all the same: the table has no order date. So the error
  does not say that no file of that name exists, and a file of that name that is found
  is not always loaded.
\<close>

theorem loader_not_found_counterexample:
  "files_named ''superstore.csv'' home_notes_only = [notes_frame] \<and>
   data_loader Inr pandas_model ''/home/ana'' home_notes_only ''superstore.csv'' =
     Inl (NotFound ''superstore.csv'' ''/home/ana'')"
  using files_named_home_notes_only data_loader_home_notes_only by (rule conjI)

lemma find_after_skipped:
  "\<forall>y\<in>set pre. \<not> Q y \<Longrightarrow> Q c \<Longrightarrow> List.find Q (pre @ c # post) = Some c"
  by (induction pre) simp_all

lemma data_loader_loads_first:
  assumes "files_named n home = pre @ c # post"
    and "\<forall>c'\<in>set pre. load_file read_csv P c' = Inr None"
    and "load_file read_csv P c = Inr (Some df)"
  shows "data_loader read_csv P rb home n = Inr df"
proof -
  have "List.find (\<lambda>c. load_file read_csv P c \<noteq> Inr None) (pre @ c # post) = Some c"
    using assms(2,3) by (intro find_after_skipped) simp_all
  with assms(1,3) show ?thesis by (simp add: data_loader_find)
qed

lemma load_file_normalises:
  assumes "read_csv c = Inr raw" and "data_cleaning P raw = Inr cl"
    and "map_of cl ''Order Date'' = Some od" and "to_datetime_coerce P (cells od) = Inr ds"
  shows "load_file read_csv P c =
     Inr (Some
       (assign_present (\<lambda>c. fillna (Txt ''Unknown'') (astype_str P c)) categorical_columns
          (assign_present
             (\<lambda>c. fillna (Num 0) \<lparr>dtype = float64, cells = to_numeric_coerce P c\<rparr>)
             numeric_columns
             (AList.update ''Order Date'' \<lparr>dtype = datetime64, cells = ds\<rparr> cl))))"
  using assms by (simp add: load_file_def)

lemma load_file_orders_frame:
  "load_file Inr pandas_model orders_frame = Inr (Some loaded_orders)"
  by code_simp

text \<open>
  Claim C2, amended. The loader walks the whole tree below the home directory, at any
  depth, and looks at the files of the wanted name in the order of the walk. It
  returns the table of the first of them whose parsed table has an order date column,
  all files of that name before it having parsed without one. It raises its not-found
  error, which names the file and the search root, if and only if every file of that
  name below the root parses to a table without an order date column; this is so in
  particular when no file of that name exists below the root.

  The last two parts say that a table is indeed returned: when the files of that
  name met first parse without an order date and the next one loads, the loader
  returns its table; and a file that parses, with an order date that converts, loads
  to the normalised table of lines 64 to 72.
\<close>

theorem loader_first_usable_file:
  "(data_loader read_csv P ruta_base home nombre_archivo =
      Inl (NotFound nombre_archivo ruta_base) \<longleftrightarrow>
      (\<forall>c\<in>set (files_named nombre_archivo home).
         \<exists>raw. read_csv c = Inr raw \<and> ''Order Date'' \<notin> fst ` set raw)) \<and>
   (\<forall>n r. data_loader read_csv P ruta_base home nombre_archivo = Inl (NotFound n r) \<longrightarrow>
      n = nombre_archivo \<and> r = ruta_base) \<and>
   (files_named nombre_archivo home = [] \<longrightarrow>
      data_loader read_csv P ruta_base home nombre_archivo =
        Inl (NotFound nombre_archivo ruta_base)) \<and>
   (\<forall>df. data_loader read_csv P ruta_base home nombre_archivo = Inr df \<longrightarrow>
      (\<exists>pre c post. files_named nombre_archivo home = pre @ c # post \<and>
         (\<forall>c'\<in>set pre. \<exists>raw. read_csv c' = Inr raw \<and> ''Order Date'' \<notin> fst ` set raw) \<and>
         load_file read_csv P c = Inr (Some df) \<and> ''Order Date'' \<in> fst ` set df)) \<and>
   (\<forall>pre c post df.
      files_named nombre_archivo home = pre @ c # post \<and>
      (\<forall>c'\<in>set pre. \<exists>raw. read_csv c' = Inr raw \<and> ''Order Date'' \<notin> fst ` set raw) \<and>
      load_file read_csv P c = Inr (Some df) \<longrightarrow>
      data_loader read_csv P ruta_base home nombre_archivo = Inr df) \<and>
   (\<forall>c raw cl od ds.
      read_csv c = Inr raw \<and> data_cleaning P raw = Inr cl \<and>
      map_of cl ''Order Date'' = Some od \<and> to_datetime_coerce P (cells od) = Inr ds \<longrightarrow>
      load_file read_csv P c =
        Inr (Some
          (assign_present (\<lambda>c. fillna (Txt ''Unknown'') (astype_str P c)) categorical_columns
             (assign_present
                (\<lambda>c. fillna (Num 0) \<lparr>dtype = float64, cells = to_numeric_coerce P c\<rparr>)
                numeric_columns
                (AList.update ''Order Date'' \<lparr>dtype = datetime64, cells = ds\<rparr> cl)))))"
proof -
  have a: "data_loader read_csv P ruta_base home nombre_archivo =
      Inl (NotFound nombre_archivo ruta_base) \<longleftrightarrow>
      (\<forall>c\<in>set (files_named nombre_archivo home).
         \<exists>raw. read_csv c = Inr raw \<and> ''Order Date'' \<notin> fst ` set raw)"
    by (simp add: data_loader_NotFound_iff load_file_skip_iff)
  have b: "\<forall>n r. data_loader read_csv P ruta_base home nombre_archivo = Inl (NotFound n r) \<longrightarrow>
      n = nombre_archivo \<and> r = ruta_base"
    by (simp add: data_loader_NotFound_iff)
  have c: "files_named nombre_archivo home = [] \<longrightarrow>
      data_loader read_csv P ruta_base home nombre_archivo =
        Inl (NotFound nombre_archivo ruta_base)"
    by (simp add: data_loader_NotFound_iff)
  have d: "\<forall>df. data_loader read_csv P ruta_base home nombre_archivo = Inr df \<longrightarrow>
      (\<exists>pre c post. files_named nombre_archivo home = pre @ c # post \<and>
         (\<forall>c'\<in>set pre. \<exists>raw. read_csv c' = Inr raw \<and> ''Order Date'' \<notin> fst ` set raw) \<and>
         load_file read_csv P c = Inr (Some df) \<and> ''Order Date'' \<in> fst ` set df)"
  proof (intro allI impI)
    fix df assume "data_loader read_csv P ruta_base home nombre_archivo = Inr df"
    from data_loader_Inr_first [OF this] obtain pre c post where
      s: "files_named nombre_archivo home = pre @ c # post"
         "\<forall>c'\<in>set pre. load_file read_csv P c' = Inr None"
         "load_file read_csv P c = Inr (Some df)" by blast
    from s(2) have "\<forall>c'\<in>set pre. \<exists>raw. read_csv c' = Inr raw \<and> ''Order Date'' \<notin> fst ` set raw"
      by (simp add: load_file_skip_iff)
    with s(1,3) load_file_table_has_order_date [OF s(3)]
    show "\<exists>pre c post. files_named nombre_archivo home = pre @ c # post \<and>
         (\<forall>c'\<in>set pre. \<exists>raw. read_csv c' = Inr raw \<and> ''Order Date'' \<notin> fst ` set raw) \<and>
         load_file read_csv P c = Inr (Some df) \<and> ''Order Date'' \<in> fst ` set df"
      by blast
  qed
  have e: "\<forall>pre c post df.
      files_named nombre_archivo home = pre @ c # post \<and>
      (\<forall>c'\<in>set pre. \<exists>raw. read_csv c' = Inr raw \<and> ''Order Date'' \<notin> fst ` set raw) \<and>
      load_file read_csv P c = Inr (Some df) \<longrightarrow>
      data_loader read_csv P ruta_base home nombre_archivo = Inr df"
  proof (intro allI impI)
    fix pre c post df
    assume h: "files_named nombre_archivo home = pre @ c # post \<and>
      (\<forall>c'\<in>set pre. \<exists>raw. read_csv c' = Inr raw \<and> ''Order Date'' \<notin> fst ` set raw) \<and>
      load_file read_csv P c = Inr (Some df)"
    then have sk: "\<forall>c'\<in>set pre. load_file read_csv P c' = Inr None"
      by (simp add: load_file_skip_iff)
    from h have fl: "files_named nombre_archivo home = pre @ c # post"
      and ld: "load_file read_csv P c = Inr (Some df)" by simp_all
    show "data_loader read_csv P ruta_base home nombre_archivo = Inr df"
      by (rule data_loader_loads_first [OF fl sk ld])
  qed
  have f: "\<forall>c raw cl od ds.
      read_csv c = Inr raw \<and> data_cleaning P raw = Inr cl \<and>
      map_of cl ''Order Date'' = Some od \<and> to_datetime_coerce P (cells od) = Inr ds \<longrightarrow>
      load_file read_csv P c =
        Inr (Some
          (assign_present (\<lambda>c. fillna (Txt ''Unknown'') (astype_str P c)) categorical_columns
             (assign_present
                (\<lambda>c. fillna (Num 0) \<lparr>dtype = float64, cells = to_numeric_coerce P c\<rparr>)
                numeric_columns
                (AList.update ''Order Date'' \<lparr>dtype = datetime64, cells = ds\<rparr> cl))))"
    by (intro allI impI, elim conjE, rule load_file_normalises)
  show ?thesis
    by (rule conjI [OF a conjI [OF b conjI [OF c conjI [OF d conjI [OF e f]]]]])
qed

theorem loader_first_usable_file_witness:
  "files_named ''superstore.csv'' home_without = [] \<and>
   data_loader Inr pandas_model ''/home/ana'' home_without ''superstore.csv'' =
     Inl (NotFound ''superstore.csv'' ''/home/ana'') \<and>
   files_named ''superstore.csv'' home_two = [notes_frame] @ orders_frame # [] \<and>
   ''Order Date'' \<notin> fst ` set notes_frame \<and>
   load_file Inr pandas_model orders_frame = Inr (Some loaded_orders) \<and>
   data_loader Inr pandas_model ''/home/ana'' home_two ''superstore.csv'' = Inr loaded_orders"
proof -
  note inst = loader_first_usable_file [where read_csv = Inr and P = pandas_model
      and ruta_base = "''/home/ana''" and home = home_without
      and nombre_archivo = "''superstore.csv''"]
  note inst2 = loader_first_usable_file [where read_csv = Inr and P = pandas_model
      and ruta_base = "''/home/ana''" and home = home_two
      and nombre_archivo = "''superstore.csv''"]
  have nf: "data_loader Inr pandas_model ''/home/ana'' home_without ''superstore.csv'' =
     Inl (NotFound ''superstore.csv'' ''/home/ana'')"
    by (rule inst [THEN conjunct2, THEN conjunct2, THEN conjunct1, THEN mp,
          OF files_named_home_without])
  have fl: "files_named ''superstore.csv'' home_two = [notes_frame] @ orders_frame # []"
    by (simp add: files_named_home_two)
  have sk: "\<forall>c'\<in>set [notes_frame].
      \<exists>raw. (Inr c' :: exn + frame) = Inr raw \<and> ''Order Date'' \<notin> fst ` set raw"
    by (simp add: notes_frame_no_order_date)
  have hyp: "files_named ''superstore.csv'' home_two = [notes_frame] @ orders_frame # [] \<and>
      (\<forall>c'\<in>set [notes_frame].
         \<exists>raw. (Inr c' :: exn + frame) = Inr raw \<and> ''Order Date'' \<notin> fst ` set raw) \<and>
      load_file Inr pandas_model orders_frame = Inr (Some loaded_orders)"
    by (intro conjI fl sk load_file_orders_frame)
  have ld: "data_loader Inr pandas_model ''/home/ana'' home_two ''superstore.csv'' =
      Inr loaded_orders"
    by (rule inst2 [THEN conjunct2, THEN conjunct2, THEN conjunct2, THEN conjunct2,
          THEN conjunct1, THEN spec, THEN spec, THEN spec, THEN spec, THEN mp, OF hyp])
  show ?thesis
    by (intro conjI files_named_home_without nf fl notes_frame_no_order_date
        load_file_orders_frame ld)
qed

text \<open>
  Claim C10. A table that the loader returns has an order date column. In the loop, a
  directory whose file of the wanted name parses to a table without that column is
  passed over and the search goes on with the rest of the walk. When files of that
  name exist below the root and every one of them parses to a table without the
  column, the loader raises its not-found error.
\<close>

theorem loader_requires_order_date:
  "(\<forall>df. data_loader read_csv P ruta_base home nombre_archivo = Inr df \<longrightarrow>
      ''Order Date'' \<in> fst ` set df) \<and>
   (\<forall>c raw. fs nombre_archivo = Some c \<and> read_csv c = Inr raw \<and>
            ''Order Date'' \<notin> fst ` set raw \<longrightarrow>
      search read_csv P nombre_archivo ruta_base ((dirpath, dirnames, fs) # rest) =
        search read_csv P nombre_archivo ruta_base rest) \<and>
   (files_named nombre_archivo home \<noteq> [] \<and>
    (\<forall>c\<in>set (files_named nombre_archivo home).
       \<exists>raw. read_csv c = Inr raw \<and> ''Order Date'' \<notin> fst ` set raw) \<longrightarrow>
      data_loader read_csv P ruta_base home nombre_archivo =
        Inl (NotFound nombre_archivo ruta_base))"
proof -
  have a: "\<forall>df. data_loader read_csv P ruta_base home nombre_archivo = Inr df \<longrightarrow>
      ''Order Date'' \<in> fst ` set df"
  proof (intro allI impI)
    fix df assume "data_loader read_csv P ruta_base home nombre_archivo = Inr df"
    from data_loader_Inr_first [OF this] obtain c where
      "load_file read_csv P c = Inr (Some df)" by blast
    then show "''Order Date'' \<in> fst ` set df" by (rule load_file_table_has_order_date)
  qed
  have b: "\<forall>c raw. fs nombre_archivo = Some c \<and> read_csv c = Inr raw \<and>
            ''Order Date'' \<notin> fst ` set raw \<longrightarrow>
      search read_csv P nombre_archivo ruta_base ((dirpath, dirnames, fs) # rest) =
        search read_csv P nombre_archivo ruta_base rest"
  proof (intro allI impI)
    fix c raw
    assume h: "fs nombre_archivo = Some c \<and> read_csv c = Inr raw \<and>
            ''Order Date'' \<notin> fst ` set raw"
    then have "load_file read_csv P c = Inr None"
      using load_file_skip_iff [of read_csv P c] by blast
    with h show "search read_csv P nombre_archivo ruta_base ((dirpath, dirnames, fs) # rest) =
        search read_csv P nombre_archivo ruta_base rest" by simp
  qed
  have c: "files_named nombre_archivo home \<noteq> [] \<and>
    (\<forall>c\<in>set (files_named nombre_archivo home).
       \<exists>raw. read_csv c = Inr raw \<and> ''Order Date'' \<notin> fst ` set raw) \<longrightarrow>
      data_loader read_csv P ruta_base home nombre_archivo =
        Inl (NotFound nombre_archivo ruta_base)"
    by (simp add: data_loader_NotFound_iff load_file_skip_iff)
  from a b c show ?thesis by blast
qed

theorem loader_requires_order_date_witness:
  "files_named ''superstore.csv'' home_notes_only \<noteq> [] \<and>
   data_loader Inr pandas_model ''/home/ana'' home_notes_only ''superstore.csv'' =
     Inl (NotFound ''superstore.csv'' ''/home/ana'') \<and>
   data_loader Inr pandas_model ''/home/ana'' home_two ''superstore.csv'' = Inr loaded_orders \<and>
   ''Order Date'' \<in> fst ` set loaded_orders"
proof -
  note t1 = loader_requires_order_date [where read_csv = Inr and P = pandas_model
      and ruta_base = "''/home/ana''" and home = home_notes_only
      and nombre_archivo = "''superstore.csv''"]
  note t2 = loader_requires_order_date [where read_csv = Inr and P = pandas_model
      and ruta_base = "''/home/ana''" and home = home_two
      and nombre_archivo = "''superstore.csv''"]
  have ne: "files_named ''superstore.csv'' home_notes_only \<noteq> []"
    by (simp add: files_named_home_notes_only)
  have all: "\<forall>c\<in>set (files_named ''superstore.csv'' home_notes_only).
       \<exists>raw. (Inr c :: exn + frame) = Inr raw \<and> ''Order Date'' \<notin> fst ` set raw"
    by (simp add: files_named_home_notes_only notes_frame_no_order_date)
  have nf: "data_loader Inr pandas_model ''/home/ana'' home_notes_only ''superstore.csv'' =
     Inl (NotFound ''superstore.csv'' ''/home/ana'')"
    using t1 [THEN conjunct2, THEN conjunct2] ne all by blast
  have od: "''Order Date'' \<in> fst ` set loaded_orders"
    using t2 [THEN conjunct1] data_loader_home_two by blast
  from ne nf data_loader_home_two od show ?thesis by blast
qed

subsection \<open>The categorical columns\<close>

lemma fillna_astype_str: "fillna (Txt ''Unknown'') (astype_str P c) = astype_str P c"
  by (simp add: fillna_def astype_str_def)

lemma astype_str_all_text: "list_all is_text (cells (astype_str P c))"
  by (simp add: astype_str_def list_all_iff)

lemma astype_str_missing:
  "cells (astype_str P \<lparr>dtype = d, cells = [NA]\<rparr>) =
     [Txt (if d = datetime64 then ''NaT'' else ''nan'')]"
  by (simp add: astype_str_def)

lemma map_of_assign_present:
  "distinct cols \<Longrightarrow>
   map_of (assign_present f cols df) k =
     (if k \<in> set cols then map_option f (map_of df k) else map_of df k)"
proof (induction cols arbitrary: df)
  case Nil
  then show ?case by simp
next
  case (Cons col cols)
  then have d: "distinct cols" and nin: "col \<notin> set cols" by simp_all
  show ?case
  proof (cases "map_of df col")
    case None
    with Cons.IH [OF d, of df] nin show ?thesis by auto
  next
    case (Some c)
    with Cons.IH [OF d, of "AList.update col (f c) df"] nin show ?thesis
      by (auto simp: update_conv')
  qed
qed

lemma load_file_categorical:
  assumes "load_file read_csv P c = Inr (Some df)" and "k \<in> set categorical_columns"
    and "map_of df k = Some col"
  shows "\<exists>raw cl c0. read_csv c = Inr raw \<and> data_cleaning P raw = Inr cl \<and>
           map_of cl k = Some c0 \<and> col = astype_str P c0"
proof -
  from assms(1) obtain raw cl od ds where
    r: "read_csv c = Inr raw" "data_cleaning P raw = Inr cl" and
    df: "df = assign_present (\<lambda>c. fillna (Txt ''Unknown'') (astype_str P c))
                          categorical_columns
                          (assign_present
                             (\<lambda>c. fillna (Num 0) \<lparr>dtype = float64, cells = to_numeric_coerce P c\<rparr>)
                             numeric_columns
                             (AList.update ''Order Date'' \<lparr>dtype = datetime64, cells = ds\<rparr> cl))"
    by (auto simp: load_file_def split: sum.splits option.splits)
  have dc: "distinct categorical_columns" and dn: "distinct numeric_columns"
    by (simp_all add: categorical_columns_def numeric_columns_def)
  have k: "k \<notin> set numeric_columns" "k \<noteq> ''Order Date''"
    using assms(2) by (auto simp: categorical_columns_def numeric_columns_def)
  have "map_of df k = map_option (\<lambda>c. astype_str P c) (map_of cl k)"
    unfolding df using assms(2) k
    by (simp add: map_of_assign_present [OF dc] map_of_assign_present [OF dn] update_conv'
        fillna_astype_str)
  with assms(3) r show ?thesis by auto
qed

text \<open>
  Claim C3. In the loaded table every categorical column holds text only, but a
  missing value is not replaced by \<^verbatim>\<open>Unknown\<close>: \<^verbatim>\<open>astype(str)\<close> has already made
  it the text \<^verbatim>\<open>nan\<close> when \<^verbatim>\<open>fillna("Unknown")\<close> runs, which then finds nothing to
  fill. Here the second region of the parsed file is missing, and the second region of
  the loaded table is \<^verbatim>\<open>nan\<close>.
\<close>

theorem missing_region_becomes_nan:
  "map_of orders_frame ''Region'' = Some \<lparr>dtype = object, cells = [Txt ''East'', NA]\<rparr> \<and>
   data_loader Inr pandas_model ''/home/ana'' home_two ''superstore.csv'' = Inr loaded_orders \<and>
   map_of loaded_orders ''Region'' =
     Some \<lparr>dtype = object, cells = [Txt ''East'', Txt ''nan'']\<rparr>"
  using data_loader_home_two by (simp add: orders_frame_def loaded_orders_def)

subsection \<open>Type coercion\<close>

lemma strip_and_parse_sample:
  "str_replace pandas_model [Txt ''$1,200'', Txt ''$950''] = Inr [Txt ''1200'', Txt ''950''] \<and>
   to_numeric pandas_model [Txt ''1200'', Txt ''950''] = Inr [Num 1200, Num 950]"
  by code_simp

lemma to_numeric_texts:
  "list_all (\<lambda>x. x = NA \<or> is_text x) cs \<Longrightarrow>
   to_numeric P cs = Inr ns \<longleftrightarrow>
     list_all2 (\<lambda>x n. (x = NA \<and> n = NA) \<or> (\<exists>s. x = Txt s \<and> parse_number P s = Some n)) cs ns"
proof (induction cs arbitrary: ns)
  case Nil
  then show ?case by auto
next
  case (Cons x cs)
  then have ih: "\<And>vs. to_numeric P cs = Inr vs \<longleftrightarrow>
     list_all2 (\<lambda>x n. (x = NA \<and> n = NA) \<or> (\<exists>s. x = Txt s \<and> parse_number P s = Some n)) cs vs"
    and x: "x = NA \<or> is_text x" by simp_all
  from x show ?case
  proof
    assume "x = NA"
    then show ?thesis
      by (cases "to_numeric P cs") (auto simp: ih [symmetric] list_all2_Cons1)
  next
    assume "is_text x"
    then obtain s where s: "x = Txt s" by (cases x) simp_all
    show ?thesis
    proof (cases "parse_number P s")
      case None
      with s show ?thesis by (auto simp: list_all2_Cons1)
    next
      case (Some v)
      with s show ?thesis
        by (cases "to_numeric P cs") (auto simp: ih [symmetric] list_all2_Cons1)
    qed
  qed
qed

lemma coerce_columns_each:
  "coerce_columns P fr = Inr df' \<Longrightarrow>
   list_all2 (\<lambda>nc nc'. fst nc' = fst nc \<and> coerce_column P (snd nc) = Inr (snd nc')) fr df'"
proof (induction fr arbitrary: df')
  case Nil
  then show ?case by simp
next
  case (Cons nc rest)
  obtain name c where nc: "nc = (name, c)" by (cases nc)
  from Cons.prems nc obtain c' rest' where
    "coerce_column P c = Inr c'" "coerce_columns P rest = Inr rest'" "df' = (name, c') # rest'"
    by (auto split: sum.splits)
  with Cons.IH [of rest'] nc show ?case by simp
qed

lemma data_cleaning_raw_sample: "data_cleaning pandas_model raw_sample = Inr cleaned_sample"
  by code_simp

text \<open>
  The mask of \<^verbatim>\<open>drop_duplicates\<close> keeps a row exactly when no earlier row equals
  it.
\<close>

lemma first_seen_length: "length (first_seen seen xs) = length xs"
  by (induction xs arbitrary: seen) simp_all

lemma first_seen_nth:
  "i < length xs \<Longrightarrow> first_seen seen xs ! i \<longleftrightarrow> xs ! i \<notin> set seen \<union> set (take i xs)"
proof (induction xs arbitrary: seen i)
  case Nil
  then show ?case by simp
next
  case (Cons x xs)
  show ?case
  proof (cases i)
    case 0
    then show ?thesis by simp
  next
    case (Suc j)
    with Cons.prems have "j < length xs" by simp
    from Cons.IH [OF this, of "x # seen"] Suc show ?thesis by auto
  qed
qed

lemma strip_parse_column:
  assumes o: "dtype c = object"
    and s: "str_accessor P (cells c)"
    and p: "list_all2 (\<lambda>x n. case x of
                Txt s \<Rightarrow> parse_number P (filter (\<lambda>ch. ch \<noteq> CHR ''$'' \<and> ch \<noteq> CHR '','') s) = Some n
              | _ \<Rightarrow> n = NA) (cells c) ns"
  shows "coerce_column P c = Inr \<lparr>dtype = float64, cells = ns\<rparr>"
proof -
  let ?f = "\<lambda>x. case x of Txt s \<Rightarrow> Txt (strip_currency s) | _ \<Rightarrow> NA"
  from s have r: "str_replace P (cells c) = Inr (map ?f (cells c))"
    by (simp add: str_replace_def)
  have t: "list_all (\<lambda>x. x = NA \<or> is_text x) (map ?f (cells c))"
    by (simp add: list_all_iff split: cell.splits)
  have "list_all2 (\<lambda>x n. (x = NA \<and> n = NA) \<or> (\<exists>s. x = Txt s \<and> parse_number P s = Some n))
          (map ?f (cells c)) ns"
    unfolding list_all2_map1
    by (rule list_all2_mono [OF p]) (simp add: strip_currency_def split: cell.splits)
  with to_numeric_texts [OF t] have "to_numeric P (map ?f (cells c)) = Inr ns" by simp
  with o r show ?thesis by (simp add: coerce_column_def)
qed

text \<open>
  Claim C7. Type coercion of a column never raises. A column that is not of dtype
  object is left as it is. For a column of dtype object the interpretations are tried
  in this order: if the cells, with dollar signs and commas removed, parse as numbers,
  the column becomes these numbers; if not, and the cells parse as dates, it becomes
  these dates; if neither, it stays as it was. The cleaning of a whole table never
  raises either. With the decimal reading of numbers, the column of \<^verbatim>\<open>$1,200\<close>
  and \<^verbatim>\<open>$950\<close> becomes the numbers 1200 and 950.

  The steps are these, for every parser. Where the \<^verbatim>\<open>.str\<close> accessor accepts the
  cells, the replacement gives every text without its dollar signs and commas, every
  other character kept in place, and a missing cell for every other cell; where it
  does not, it raises AttributeError. On texts and missing cells, the numeric reading
  succeeds with the cells \<open>ns\<close> exactly when every text parses to the cell of \<open>ns\<close> at
  its place and every missing cell stays missing. So an object column that the
  accessor accepts, and whose texts all parse once dollar signs and commas are
  removed, becomes the float64 column of these numbers. The cleaning of a table
  returns the table without its repeated rows, every column under its name and
  coerced as above; in the sample the third row repeats the first and is dropped, the
  dates become timestamps, the regions stay texts and the sales \<^verbatim>\<open>$1,200\<close> and
  \<^verbatim>\<open>$950.50\<close> become 1200 and 950.5.
\<close>

theorem type_coercion_order:
  "(\<exists>c'. coerce_column P c = Inr c') \<and>
   (dtype c \<noteq> object \<longrightarrow> coerce_column P c = Inr c) \<and>
   (\<forall>cs ns. dtype c = object \<and> str_replace P (cells c) = Inr cs \<and> to_numeric P cs = Inr ns \<longrightarrow>
      coerce_column P c = Inr \<lparr>dtype = float64, cells = ns\<rparr>) \<and>
   (\<forall>ds. dtype c = object \<and>
         (\<forall>cs ns. str_replace P (cells c) = Inr cs \<longrightarrow> to_numeric P cs \<noteq> Inr ns) \<and>
         to_datetime P (cells c) = Inr ds \<longrightarrow>
      coerce_column P c = Inr \<lparr>dtype = datetime64, cells = ds\<rparr>) \<and>
   (dtype c = object \<and>
    (\<forall>cs ns. str_replace P (cells c) = Inr cs \<longrightarrow> to_numeric P cs \<noteq> Inr ns) \<and>
    (\<forall>ds. to_datetime P (cells c) \<noteq> Inr ds) \<longrightarrow>
      coerce_column P c = Inr c) \<and>
   (\<exists>df'. data_cleaning P df = Inr df') \<and>
   coerce_column pandas_model \<lparr>dtype = object, cells = [Txt ''$1,200'', Txt ''$950'']\<rparr> =
     Inr \<lparr>dtype = float64, cells = [Num 1200, Num 950]\<rparr> \<and>
   (\<forall>xs. str_accessor P xs \<longrightarrow>
      str_replace P xs =
        Inr (map (\<lambda>x. case x of
                         Txt s \<Rightarrow> Txt (filter (\<lambda>ch. ch \<noteq> CHR ''$'' \<and> ch \<noteq> CHR '','') s)
                       | _ \<Rightarrow> NA) xs)) \<and>
   (\<forall>xs. \<not> str_accessor P xs \<longrightarrow> str_replace P xs = Inl AttributeError) \<and>
   (\<forall>xs ns. list_all (\<lambda>x. x = NA \<or> is_text x) xs \<longrightarrow>
      (to_numeric P xs = Inr ns \<longleftrightarrow>
       list_all2 (\<lambda>x n. (x = NA \<and> n = NA) \<or> (\<exists>s. x = Txt s \<and> parse_number P s = Some n)) xs ns)) \<and>
   (\<forall>ns. dtype c = object \<and> str_accessor P (cells c) \<and>
      list_all2 (\<lambda>x n. case x of
                  Txt s \<Rightarrow> parse_number P (filter (\<lambda>ch. ch \<noteq> CHR ''$'' \<and> ch \<noteq> CHR '','') s) = Some n
                | _ \<Rightarrow> n = NA) (cells c) ns \<longrightarrow>
      coerce_column P c = Inr \<lparr>dtype = float64, cells = ns\<rparr>) \<and>
   (\<exists>df'. data_cleaning P df = Inr df' \<and>
      list_all2 (\<lambda>nc nc'. fst nc' = fst nc \<and> coerce_column P (snd nc) = Inr (snd nc'))
        (drop_duplicates df) df') \<and>
   data_cleaning pandas_model raw_sample = Inr cleaned_sample"
proof -
  have a: "\<exists>c'. coerce_column P c = Inr c'" by (rule coerce_column_total)
  have b: "dtype c \<noteq> object \<longrightarrow> coerce_column P c = Inr c"
    by (simp add: coerce_column_def)
  have num: "coerce_column P c = Inr \<lparr>dtype = float64, cells = ns\<rparr>"
    if "dtype c = object" "str_replace P (cells c) = Inr cs" "to_numeric P cs = Inr ns"
    for c cs ns and P :: pandas
    using that by (simp add: coerce_column_def)
  have c: "\<forall>cs ns. dtype c = object \<and> str_replace P (cells c) = Inr cs \<and> to_numeric P cs = Inr ns \<longrightarrow>
      coerce_column P c = Inr \<lparr>dtype = float64, cells = ns\<rparr>"
    using num by blast
  have fail: "\<exists>e. (case str_replace P (cells c) of Inl e \<Rightarrow> Inl e | Inr cs \<Rightarrow> to_numeric P cs) = Inl e"
    if "\<forall>cs ns. str_replace P (cells c) = Inr cs \<longrightarrow> to_numeric P cs \<noteq> Inr ns"
  proof (cases "str_replace P (cells c)")
    case (Inl e)
    then show ?thesis by simp
  next
    case (Inr cs)
    with that have "\<forall>ns. to_numeric P cs \<noteq> Inr ns" by simp
    then obtain e where "to_numeric P cs = Inl e" by (cases "to_numeric P cs") auto
    with Inr show ?thesis by simp
  qed
  have d: "\<forall>ds. dtype c = object \<and>
         (\<forall>cs ns. str_replace P (cells c) = Inr cs \<longrightarrow> to_numeric P cs \<noteq> Inr ns) \<and>
         to_datetime P (cells c) = Inr ds \<longrightarrow>
      coerce_column P c = Inr \<lparr>dtype = datetime64, cells = ds\<rparr>"
  proof (intro allI impI)
    fix ds
    assume h: "dtype c = object \<and>
         (\<forall>cs ns. str_replace P (cells c) = Inr cs \<longrightarrow> to_numeric P cs \<noteq> Inr ns) \<and>
         to_datetime P (cells c) = Inr ds"
    then obtain e where
      "(case str_replace P (cells c) of Inl e \<Rightarrow> Inl e | Inr cs \<Rightarrow> to_numeric P cs) = Inl e"
      using fail by blast
    with h show "coerce_column P c = Inr \<lparr>dtype = datetime64, cells = ds\<rparr>"
      by (simp add: coerce_column_def)
  qed
  have e: "dtype c = object \<and>
    (\<forall>cs ns. str_replace P (cells c) = Inr cs \<longrightarrow> to_numeric P cs \<noteq> Inr ns) \<and>
    (\<forall>ds. to_datetime P (cells c) \<noteq> Inr ds) \<longrightarrow>
      coerce_column P c = Inr c"
  proof
    assume h: "dtype c = object \<and>
      (\<forall>cs ns. str_replace P (cells c) = Inr cs \<longrightarrow> to_numeric P cs \<noteq> Inr ns) \<and>
      (\<forall>ds. to_datetime P (cells c) \<noteq> Inr ds)"
    then obtain e where
      n: "(case str_replace P (cells c) of Inl e \<Rightarrow> Inl e | Inr cs \<Rightarrow> to_numeric P cs) = Inl e"
      using fail by blast
    from h obtain e' where "to_datetime P (cells c) = Inl e'"
      by (cases "to_datetime P (cells c)") auto
    with h n show "coerce_column P c = Inr c"
      by (simp add: coerce_column_def)
  qed
  have f: "\<exists>df'. data_cleaning P df = Inr df'"
    using data_cleaning_total by blast
  have g: "coerce_column pandas_model \<lparr>dtype = object, cells = [Txt ''$1,200'', Txt ''$950'']\<rparr> =
     Inr \<lparr>dtype = float64, cells = [Num 1200, Num 950]\<rparr>"
  proof (rule num)
    show "dtype \<lparr>dtype = object, cells = [Txt ''$1,200'', Txt ''$950'']\<rparr> = object"
      by simp
    show "str_replace pandas_model
          (cells \<lparr>dtype = object, cells = [Txt ''$1,200'', Txt ''$950'']\<rparr>) =
        Inr [Txt ''1200'', Txt ''950'']"
      by (simp add: strip_and_parse_sample [THEN conjunct1])
    show "to_numeric pandas_model [Txt ''1200'', Txt ''950''] = Inr [Num 1200, Num 950]"
      by (rule strip_and_parse_sample [THEN conjunct2])
  qed
  have h: "\<forall>xs. str_accessor P xs \<longrightarrow>
      str_replace P xs =
        Inr (map (\<lambda>x. case x of
                         Txt s \<Rightarrow> Txt (filter (\<lambda>ch. ch \<noteq> CHR ''$'' \<and> ch \<noteq> CHR '','') s)
                       | _ \<Rightarrow> NA) xs)"
    by (simp add: str_replace_def strip_currency_def)
  have i: "\<forall>xs. \<not> str_accessor P xs \<longrightarrow> str_replace P xs = Inl AttributeError"
    by (simp add: str_replace_def)
  have j: "\<forall>xs ns. list_all (\<lambda>x. x = NA \<or> is_text x) xs \<longrightarrow>
      (to_numeric P xs = Inr ns \<longleftrightarrow>
       list_all2 (\<lambda>x n. (x = NA \<and> n = NA) \<or> (\<exists>s. x = Txt s \<and> parse_number P s = Some n)) xs ns)"
    using to_numeric_texts by blast
  have m: "\<forall>ns. dtype c = object \<and> str_accessor P (cells c) \<and>
      list_all2 (\<lambda>x n. case x of
                  Txt s \<Rightarrow> parse_number P (filter (\<lambda>ch. ch \<noteq> CHR ''$'' \<and> ch \<noteq> CHR '','') s) = Some n
                | _ \<Rightarrow> n = NA) (cells c) ns \<longrightarrow>
      coerce_column P c = Inr \<lparr>dtype = float64, cells = ns\<rparr>"
    by (intro allI impI, elim conjE, rule strip_parse_column)
  have k: "\<exists>df'. data_cleaning P df = Inr df' \<and>
      list_all2 (\<lambda>nc nc'. fst nc' = fst nc \<and> coerce_column P (snd nc) = Inr (snd nc'))
        (drop_duplicates df) df'"
  proof -
    from f obtain df' where df': "data_cleaning P df = Inr df'" ..
    then have "coerce_columns P (drop_duplicates df) = Inr df'"
      by (simp add: data_cleaning_def)
    from coerce_columns_each [OF this] df' show ?thesis by blast
  qed
  note l = data_cleaning_raw_sample
  show ?thesis
    by (rule conjI [OF a conjI [OF b conjI [OF c conjI [OF d conjI [OF e conjI [OF f
          conjI [OF g conjI [OF h conjI [OF i conjI [OF j conjI [OF m conjI [OF k l]]]]]]]]]]]])
qed

theorem type_coercion_order_witness:
  "dtype \<lparr>dtype = object, cells = [Txt ''$1,200'', Txt ''$950'']\<rparr> = object \<and>
   str_replace pandas_model [Txt ''$1,200'', Txt ''$950''] = Inr [Txt ''1200'', Txt ''950''] \<and>
   to_numeric pandas_model [Txt ''1200'', Txt ''950''] = Inr [Num 1200, Num 950] \<and>
   coerce_column pandas_model \<lparr>dtype = object, cells = [Txt ''$1,200'', Txt ''$950'']\<rparr> =
     Inr \<lparr>dtype = float64, cells = [Num 1200, Num 950]\<rparr> \<and>
   str_accessor pandas_model [Txt ''$1,200'', Txt ''$950.50'', NA] \<and>
   parse_number pandas_model ''1200'' = Some (Num 1200) \<and>
   parse_number pandas_model ''950.50'' = Some (Num 950.5) \<and>
   coerce_column pandas_model \<lparr>dtype = object, cells = [Txt ''$1,200'', Txt ''$950.50'', NA]\<rparr> =
     Inr \<lparr>dtype = float64, cells = [Num 1200, Num 950.5, NA]\<rparr> \<and>
   data_cleaning pandas_model raw_sample = Inr cleaned_sample"
proof -
  let ?c = "\<lparr>dtype = object, cells = [Txt ''$1,200'', Txt ''$950'']\<rparr>"
  let ?d = "\<lparr>dtype = object, cells = [Txt ''$1,200'', Txt ''$950.50'', NA]\<rparr>"
  note inst = type_coercion_order [where P = pandas_model and c = ?c and df = raw_sample]
  note inst' = type_coercion_order [where P = pandas_model and c = ?d and df = raw_sample]
  have h1: "dtype ?c = object" by simp
  have h2: "str_replace pandas_model (cells ?c) = Inr [Txt ''1200'', Txt ''950'']"
    by (simp add: strip_and_parse_sample [THEN conjunct1])
  have h3: "to_numeric pandas_model [Txt ''1200'', Txt ''950''] = Inr [Num 1200, Num 950]"
    by (rule strip_and_parse_sample [THEN conjunct2])
  have r1: "coerce_column pandas_model ?c = Inr \<lparr>dtype = float64, cells = [Num 1200, Num 950]\<rparr>"
    using inst [THEN conjunct2, THEN conjunct2, THEN conjunct1] h1 h2 h3 by blast
  have s1: "str_accessor pandas_model [Txt ''$1,200'', Txt ''$950.50'', NA]" by code_simp
  have p1: "parse_number pandas_model ''1200'' = Some (Num 1200)" by code_simp
  have p2: "parse_number pandas_model ''950.50'' = Some (Num 950.5)" by code_simp
  have hyp: "dtype ?d = object \<and> str_accessor pandas_model (cells ?d) \<and>
      list_all2 (\<lambda>x n. case x of
                  Txt s \<Rightarrow> parse_number pandas_model
                             (filter (\<lambda>ch. ch \<noteq> CHR ''$'' \<and> ch \<noteq> CHR '','') s) = Some n
                | _ \<Rightarrow> n = NA) (cells ?d) [Num 1200, Num 950.5, NA]"
    using s1 p1 p2 by simp
  have r2: "coerce_column pandas_model ?d = Inr \<lparr>dtype = float64, cells = [Num 1200, Num 950.5, NA]\<rparr>"
    by (rule inst' [THEN conjunct2, THEN conjunct2, THEN conjunct2, THEN conjunct2, THEN conjunct2,
          THEN conjunct2, THEN conjunct2, THEN conjunct2, THEN conjunct2, THEN conjunct2,
          THEN conjunct1, THEN spec, THEN mp, OF hyp])
  have r3: "data_cleaning pandas_model raw_sample = Inr cleaned_sample"
    by (rule inst [THEN conjunct2, THEN conjunct2, THEN conjunct2, THEN conjunct2, THEN conjunct2,
          THEN conjunct2, THEN conjunct2, THEN conjunct2, THEN conjunct2, THEN conjunct2,
          THEN conjunct2, THEN conjunct2])
  show ?thesis
    by (rule conjI [OF h1 conjI [OF strip_and_parse_sample [THEN conjunct1]
          conjI [OF h3 conjI [OF r1 conjI [OF s1 conjI [OF p1 conjI [OF p2 conjI [OF r2 r3]]]]]]]])
qed

section \<open>Properties of the state by region matrix\<close>

subsection \<open>Taking rows by position\<close>

lemma take_rows_nth:
  "\<forall>i\<in>set idx. i < length xs \<Longrightarrow> take_rows xs idx = map (\<lambda>i. xs ! i) idx"
proof (induction idx)
  case Nil
  then show ?case by (simp add: take_rows_def)
next
  case (Cons i idx)
  then have "i < length xs" by simp
  then have "take 1 (drop i xs) = [xs ! i]"
    by (metis Cons_nth_drop_Suc One_nat_def take0 take_Suc_Cons)
  with Cons show ?case by (simp add: take_rows_def)
qed

lemma argsort_spec_set:
  assumes "argsort_spec argsort"
  shows "set (argsort keys) = {0..<length keys}"
proof -
  from assms have "mset (argsort keys) = mset [0..<length keys]"
    by (simp add: argsort_spec_def)
  then have "set (argsort keys) = set [0..<length keys]" by (rule mset_eq_setD)
  then show ?thesis by simp
qed

lemma take_rows_argsort:
  assumes "argsort_spec argsort" and "length xs = length keys"
  shows "take_rows xs (argsort keys) = map (\<lambda>i. xs ! i) (argsort keys)"
  by (rule take_rows_nth) (simp add: argsort_spec_set [OF assms(1)] assms(2))

lemma take_rows_map:
  assumes "argsort_spec argsort" and "length xs = length keys"
  shows "take_rows (map f xs) (argsort keys) = map f (take_rows xs (argsort keys))"
proof -
  have in_range: "\<forall>i\<in>set (argsort keys). i < length xs"
    by (simp add: argsort_spec_set [OF assms(1)] assms(2))
  have "take_rows (map f xs) (argsort keys) = map (\<lambda>i. map f xs ! i) (argsort keys)"
    using assms by (simp add: take_rows_argsort)
  also have "\<dots> = map (\<lambda>i. f (xs ! i)) (argsort keys)"
    using in_range by simp
  also have "\<dots> = map f (take_rows xs (argsort keys))"
    using assms by (simp add: take_rows_argsort comp_def)
  finally show ?thesis .
qed

lemma take_rows_mset:
  assumes "argsort_spec argsort" and "length xs = length keys"
  shows "mset (take_rows xs (argsort keys)) = mset xs"
proof -
  have "mset (map (\<lambda>i. xs ! i) (argsort keys)) = image_mset (\<lambda>i. xs ! i) (mset (argsort keys))"
    by simp
  also have "\<dots> = image_mset (\<lambda>i. xs ! i) (mset [0..<length xs])"
    using assms by (simp add: argsort_spec_def)
  also have "\<dots> = mset (map (\<lambda>i. xs ! i) [0..<length xs])" by simp
  also have "\<dots> = mset xs" by (simp add: map_nth)
  finally show ?thesis using assms by (simp add: take_rows_argsort)
qed

lemma take_rows_sorted:
  assumes "argsort_spec argsort"
  shows "sorted (take_rows keys (argsort keys))"
  using assms by (simp add: take_rows_argsort argsort_spec_def)

lemma stable_argsort_spec: "argsort_spec stable_argsort"
  unfolding argsort_spec_def
proof (intro allI conjI)
  fix keys :: "real list"
  let ?zs = "zip keys [0..<length keys]"
  have ms: "map snd ?zs = [0..<length keys]" by simp
  have "mset (stable_argsort keys) = mset (map snd (sort_key fst ?zs))"
    by (simp add: stable_argsort_def)
  also have "\<dots> = image_mset snd (mset (sort_key fst ?zs))" by (simp only: mset_map)
  also have "\<dots> = image_mset snd (mset ?zs)" by (simp only: mset_sort)
  also have "\<dots> = mset (map snd ?zs)" by (simp only: mset_map)
  also have "\<dots> = mset [0..<length keys]" by (simp only: ms)
  finally show "mset (stable_argsort keys) = mset [0..<length keys]" .
  have "map (\<lambda>i. keys ! i) (stable_argsort keys) =
        map (\<lambda>z. keys ! snd z) (sort_key fst ?zs)"
    by (simp add: stable_argsort_def comp_def)
  also have "\<dots> = map fst (sort_key fst ?zs)"
  proof (rule map_cong [OF refl])
    fix z assume "z \<in> set (sort_key fst ?zs)"
    then have "z \<in> set ?zs" by simp
    then show "keys ! snd z = fst z"
      by (auto simp: set_zip)
  qed
  finally show "sorted (map (\<lambda>i. keys ! i) (stable_argsort keys))"
    by (simp add: sorted_sort_key)
qed

subsection \<open>The grouped sums as a matrix\<close>

lemma sorted_unique_props:
  "sorted (sorted_unique xs)" "distinct (sorted_unique xs)" "set (sorted_unique xs) = set xs"
  by (simp_all add: sorted_unique_def)

lemma sorted_unique_cong:
  "set xs = set ys \<Longrightarrow> sorted_unique xs = sorted_unique ys"
  by (intro sorted_distinct_set_unique) (simp_all add: sorted_unique_props)

lemma groupby_sum_keys:
  "set (map fst (groupby_sum key val df)) = key ` set df"
  by (simp add: groupby_sum_def comp_def)

lemma map_of_groupby_sum:
  "map_of (groupby_sum key val df) k =
     (if k \<in> key ` set df then Some (sum_list (map val (filter (\<lambda>r. key r = k) df))) else None)"
proof -
  have "map_of (map (\<lambda>k. (k, f k)) ks) k = (if k \<in> set ks then Some (f k) else None)"
    for f :: "'a \<Rightarrow> real" and ks
    by (induction ks) simp_all
  then show ?thesis by (simp add: groupby_sum_def)
qed

lemma filter_empty_sum:
  "k \<notin> key ` set df \<Longrightarrow> sum_list (map val (filter (\<lambda>r. key r = k) df)) = (0::real)"
proof -
  assume "k \<notin> key ` set df"
  then have "filter (\<lambda>r. key r = k) df = []"
    by (auto simp: filter_empty_conv)
  then show ?thesis by simp
qed

lemma pivot_cells:
  "fillna0 (unstack (groupby_sum (\<lambda>r. (State r, Region r)) Profit df)) =
     \<lparr>index = sorted_unique (map State df),
      columns = map (\<lambda>g. (g, map (\<lambda>s. sum_list (map Profit
                    (filter (\<lambda>r. (State r, Region r) = (s, g)) df)))
                  (sorted_unique (map State df))))
                 (sorted_unique (map Region df))\<rparr>"
proof -
  let ?G = "groupby_sum (\<lambda>r. (State r, Region r)) Profit df"
  have keys: "set (map fst ?G) = (\<lambda>r. (State r, Region r)) ` set df"
    by (rule groupby_sum_keys)
  have "set (map (fst \<circ> fst) ?G) = fst ` set (map fst ?G)" by (simp add: image_comp)
  also have "\<dots> = set (map State df)" unfolding keys by (simp add: image_comp comp_def)
  finally have st: "sorted_unique (map (fst \<circ> fst) ?G) = sorted_unique (map State df)"
    by (rule sorted_unique_cong)
  have "set (map (snd \<circ> fst) ?G) = snd ` set (map fst ?G)" by (simp add: image_comp)
  also have "\<dots> = set (map Region df)" unfolding keys by (simp add: image_comp comp_def)
  finally have rg: "sorted_unique (map (snd \<circ> fst) ?G) = sorted_unique (map Region df)"
    by (rule sorted_unique_cong)
  have cell: "(case map_of ?G (s, g) of None \<Rightarrow> 0 | Some x \<Rightarrow> x) =
      sum_list (map Profit (filter (\<lambda>r. (State r, Region r) = (s, g)) df))" for s g
    using filter_empty_sum [of "(s, g)" "\<lambda>r. (State r, Region r)" df Profit]
    by (simp add: map_of_groupby_sum)
  have st': "sorted_unique (map (\<lambda>x. fst (fst x)) ?G) = sorted_unique (map State df)"
    using st by (simp add: comp_def)
  have rg': "sorted_unique (map (\<lambda>x. snd (fst x)) ?G) = sorted_unique (map Region df)"
    using rg by (simp add: comp_def)
  show ?thesis
    by (simp add: fillna0_def unstack_def Let_def comp_def st' rg' cell)
qed

lemma row_sums_matrix:
  "row_sums \<lparr>index = sts, columns = map (\<lambda>g. (g, map (\<lambda>s. f s g) sts)) gs\<rparr> =
     map (\<lambda>s. sum_list (map (f s) gs)) sts"
proof -
  have step: "foldl (\<lambda>acc c. map2 (+) acc c) (map a sts) (map (\<lambda>g. map (\<lambda>s. f s g) sts) gs) =
      map (\<lambda>s. a s + sum_list (map (f s) gs)) sts" for a :: "string \<Rightarrow> real"
  proof (induction gs arbitrary: a)
    case Nil
    then show ?case by simp
  next
    case (Cons g gs)
    have "map2 (+) (map a sts) (map (\<lambda>s. f s g) sts) = map (\<lambda>s. a s + f s g) sts"
      by (induction sts) simp_all
    then show ?case using Cons [of "\<lambda>s. a s + f s g"] by (simp add: add.assoc)
  qed
  have "replicate (length sts) (0::real) = map (\<lambda>s. 0) sts"
    by (simp add: map_replicate_const)
  then show ?thesis using step [of "\<lambda>s. 0"] by (simp add: row_sums_def comp_def)
qed

lemma update_append: "k \<notin> fst ` set al \<Longrightarrow> AList.update k v al = al @ [(k, v)]"
  by (induction al) auto

lemma delete_snoc_fresh: "k \<notin> fst ` set al \<Longrightarrow> AList.delete k (al @ [(k, v)]) = al"
  by (induction al) auto

lemma map_of_snoc_fresh: "k \<notin> fst ` set al \<Longrightarrow> map_of (al @ [(k, v)]) k = Some v"
  by (induction al) auto

lemma sort_values_by_found:
  "map_of (columns m) name = Some keys \<Longrightarrow>
   sort_values_by argsort name m =
     Inr \<lparr>index = take_rows (index m) (argsort keys),
          columns = map (\<lambda>(g, c). (g, take_rows c (argsort keys))) (columns m)\<rparr>"
  by (simp add: sort_values_by_def Let_def)

lemma sorted_then_dropped:
  fixes f :: "string \<Rightarrow> string \<Rightarrow> real" and sts gs :: "string list"
  assumes spec: "argsort_spec argsort" and nt: "''Total'' \<notin> set gs"
  defines "totals \<equiv> map (\<lambda>s. sum_list (map (f s) gs)) sts"
  defines "p0 \<equiv> \<lparr>index = sts, columns = map (\<lambda>g. (g, map (\<lambda>s. f s g) sts)) gs\<rparr>"
  defines "sts' \<equiv> take_rows sts (argsort totals)"
  shows "(case sort_values_by argsort ''Total'' (set_column ''Total'' (row_sums p0) p0) of
           Inl e \<Rightarrow> Inl e
         | Inr p2 \<Rightarrow> drop_column ''Total'' p2) =
         Inr \<lparr>index = sts', columns = map (\<lambda>g. (g, map (\<lambda>s. f s g) sts')) gs\<rparr>"
proof -
  let ?cols = "map (\<lambda>g. (g, map (\<lambda>s. f s g) sts)) gs"
  let ?p = "argsort totals"
  have rs: "row_sums p0 = totals"
    unfolding p0_def totals_def by (rule row_sums_matrix)
  have keys: "fst ` set ?cols = set gs" by (auto simp: image_iff)
  have fresh: "''Total'' \<notin> fst ` set ?cols" using nt keys by simp
  have p1: "set_column ''Total'' (row_sums p0) p0 =
      \<lparr>index = sts, columns = ?cols @ [(''Total'', totals)]\<rparr>"
  proof -
    have "set_column ''Total'' (row_sums p0) p0 = set_column ''Total'' totals p0"
      by (simp only: rs)
    also have "\<dots> = \<lparr>index = sts, columns = ?cols @ [(''Total'', totals)]\<rparr>"
      using fresh by (simp add: set_column_def p0_def update_append)
    finally show ?thesis .
  qed
  have look: "map_of (?cols @ [(''Total'', totals)]) ''Total'' = Some totals"
    using fresh by (rule map_of_snoc_fresh)
  have len: "length sts = length totals" by (simp add: totals_def)
  have cols': "map (\<lambda>(g, c). (g, take_rows c ?p)) ?cols = map (\<lambda>g. (g, map (\<lambda>s. f s g) sts')) gs"
    by (simp add: comp_def take_rows_map [OF spec len] sts'_def)
  have fresh': "''Total'' \<notin> fst ` set (map (\<lambda>g. (g, map (\<lambda>s. f s g) sts')) gs)"
    using nt by (auto simp: image_iff)
  have p2: "sort_values_by argsort ''Total'' (set_column ''Total'' (row_sums p0) p0) =
      Inr \<lparr>index = sts',
           columns = map (\<lambda>g. (g, map (\<lambda>s. f s g) sts')) gs @
                     [(''Total'', take_rows totals ?p)]\<rparr>"
  proof -
    let ?m = "\<lparr>index = sts, columns = ?cols @ [(''Total'', totals)]\<rparr>"
    have look': "map_of (columns ?m) ''Total'' = Some totals"
      using look by (simp only: matrix.select_convs)
    have "sort_values_by argsort ''Total'' ?m =
        Inr \<lparr>index = take_rows (index ?m) ?p,
             columns = map (\<lambda>(g, c). (g, take_rows c ?p)) (columns ?m)\<rparr>"
      by (rule sort_values_by_found [OF look'])
    also have "\<dots> = Inr \<lparr>index = sts',
           columns = map (\<lambda>g. (g, map (\<lambda>s. f s g) sts')) gs @
                     [(''Total'', take_rows totals ?p)]\<rparr>"
      using cols' by (simp add: sts'_def)
    finally show ?thesis unfolding p1 .
  qed
  have "drop_column ''Total''
      \<lparr>index = sts',
       columns = map (\<lambda>g. (g, map (\<lambda>s. f s g) sts')) gs @ [(''Total'', take_rows totals ?p)]\<rparr> =
      Inr \<lparr>index = sts', columns = map (\<lambda>g. (g, map (\<lambda>s. f s g) sts')) gs\<rparr>"
    by (simp add: drop_column_def delete_snoc_fresh [OF fresh'])
  with p2 show ?thesis by simp
qed

lemma sum_list_single:
  "distinct gs \<Longrightarrow> a \<in> set gs \<Longrightarrow> sum_list (map (\<lambda>g. if a = g then v else 0) gs) = (v::real)"
proof (induction gs)
  case Nil
  then show ?case by simp
next
  case (Cons g gs)
  show ?case
  proof (cases "a = g")
    case True
    with Cons.prems have "a \<notin> set gs" by simp
    then have "sum_list (map (\<lambda>g. if a = g then v else 0) gs) = 0"
      by (induction gs) auto
    with True show ?thesis by simp
  next
    case False
    with Cons show ?thesis by simp
  qed
qed

lemma group_total:
  assumes "distinct gs" and "Region ` set df \<subseteq> set gs"
  shows "sum_list (map (\<lambda>g. sum_list (map Profit
             (filter (\<lambda>r. (State r, Region r) = (s, g)) df))) gs) =
         sum_list (map Profit (filter (\<lambda>r. State r = s) df))"
  using assms(2)
proof (induction df)
  case Nil
  then show ?case by simp
next
  case (Cons r rs)
  then have ih: "sum_list (map (\<lambda>g. sum_list (map Profit
             (filter (\<lambda>r. (State r, Region r) = (s, g)) rs))) gs) =
         sum_list (map Profit (filter (\<lambda>r. State r = s) rs))"
    and mem: "Region r \<in> set gs" by simp_all
  have "sum_list (map (\<lambda>g. sum_list (map Profit
             (filter (\<lambda>r. (State r, Region r) = (s, g)) (r # rs)))) gs) =
        sum_list (map (\<lambda>g. (if Region r = g then (if State r = s then Profit r else 0) else 0) +
             sum_list (map Profit (filter (\<lambda>r. (State r, Region r) = (s, g)) rs))) gs)"
    by (intro arg_cong [where f = sum_list] map_cong refl) simp
  also have "\<dots> = sum_list (map (\<lambda>g. if Region r = g then (if State r = s then Profit r else 0) else 0) gs) +
        sum_list (map (\<lambda>g. sum_list (map Profit
             (filter (\<lambda>r. (State r, Region r) = (s, g)) rs))) gs)"
    by (rule sum_list_addf)
  also have "\<dots> = (if State r = s then Profit r else 0) +
        sum_list (map Profit (filter (\<lambda>r. State r = s) rs))"
    by (simp only: sum_list_single [OF assms(1) mem] ih)
  finally show ?case by simp
qed

lemma case_sum_assoc:
  "(case a of Inl e \<Rightarrow> Inl e
    | Inr x \<Rightarrow> (case d x of Inl e \<Rightarrow> Inl e | Inr y \<Rightarrow> Inr (h y))) =
   (case (case a of Inl e \<Rightarrow> Inl e | Inr x \<Rightarrow> d x) of Inl e \<Rightarrow> Inl e | Inr y \<Rightarrow> Inr (h y))"
  by (cases a) simp_all

text \<open>
  When no region is called \<^verbatim>\<open>Total\<close>, the matrix is as described: its columns are
  the regions of the table in ascending order; its rows are the first 25 states of
  an arrangement of all states of the table in ascending order of their total profit;
  and the cell of a state and a region is the sum of the profit of the orders of that
  state in that region, which is zero when there is none.
\<close>

lemma pivot_without_Total_region:
  assumes spec: "argsort_spec argsort" and nt: "''Total'' \<notin> Region ` set df"
  shows "\<exists>sts. mset sts = mset (sorted_unique (map State df)) \<and>
           sorted (map (\<lambda>s. sum_list (map Profit (filter (\<lambda>r. State r = s) df))) sts) \<and>
           pivot argsort df =
             Inr \<lparr>index = take MAX_STATES sts,
                  columns = map (\<lambda>g. (g, map (\<lambda>s. sum_list (map Profit
                                   (filter (\<lambda>r. State r = s \<and> Region r = g) df)))
                                 (take MAX_STATES sts)))
                              (sorted_unique (map Region df))\<rparr>"
proof -
  define f where "f s g = sum_list (map Profit (filter (\<lambda>r. (State r, Region r) = (s, g)) df))"
    for s g :: string
  define states where "states = sorted_unique (map State df)"
  define gs where "gs = sorted_unique (map Region df)"
  define totals where "totals = map (\<lambda>s. sum_list (map (f s) gs)) states"
  define sts where "sts = take_rows states (argsort totals)"
  define p0 where "p0 = \<lparr>index = states, columns = map (\<lambda>g. (g, map (\<lambda>s. f s g) states)) gs\<rparr>"
  have nt': "''Total'' \<notin> set gs" using nt by (simp add: gs_def sorted_unique_props)
  have len: "length states = length totals" by (simp add: totals_def)
  have cells: "fillna0 (unstack (groupby_sum (\<lambda>r. (State r, Region r)) Profit df)) = p0"
    unfolding p0_def states_def gs_def f_def by (rule pivot_cells)
  have sd: "(case sort_values_by argsort ''Total'' (set_column ''Total'' (row_sums p0) p0) of
           Inl e \<Rightarrow> Inl e
         | Inr p2 \<Rightarrow> drop_column ''Total'' p2) =
         Inr \<lparr>index = sts, columns = map (\<lambda>g. (g, map (\<lambda>s. f s g) sts)) gs\<rparr>"
    unfolding p0_def sts_def totals_def by (rule sorted_then_dropped [OF spec nt'])
  have tk: "(if MAX_STATES < length sts
             then head MAX_STATES \<lparr>index = sts, columns = map (\<lambda>g. (g, map (\<lambda>s. f s g) sts)) gs\<rparr>
             else \<lparr>index = sts, columns = map (\<lambda>g. (g, map (\<lambda>s. f s g) sts)) gs\<rparr>) =
            \<lparr>index = take MAX_STATES sts,
             columns = map (\<lambda>g. (g, map (\<lambda>s. f s g) (take MAX_STATES sts))) gs\<rparr>"
    by (simp add: head_def comp_def take_map)
  have res: "pivot argsort df =
      Inr \<lparr>index = take MAX_STATES sts,
           columns = map (\<lambda>g. (g, map (\<lambda>s. f s g) (take MAX_STATES sts))) gs\<rparr>"
    unfolding pivot_def cells Let_def case_sum_assoc sd using tk by simp
  have perm: "mset sts = mset states"
    unfolding sts_def by (rule take_rows_mset [OF spec len])
  have tot: "sum_list (map (f s) gs) = sum_list (map Profit (filter (\<lambda>r. State r = s) df))" for s
    unfolding f_def
    by (rule group_total) (simp_all add: gs_def sorted_unique_props)
  have "take_rows (map (\<lambda>s. sum_list (map (f s) gs)) states) (argsort totals) =
        map (\<lambda>s. sum_list (map (f s) gs)) (take_rows states (argsort totals))"
    by (rule take_rows_map [OF spec len])
  then have "take_rows totals (argsort totals) = map (\<lambda>s. sum_list (map (f s) gs)) sts"
    by (simp only: totals_def [symmetric] sts_def [symmetric])
  then have "sorted (map (\<lambda>s. sum_list (map (f s) gs)) sts)"
    using take_rows_sorted [OF spec, of totals] by simp
  then have srt: "sorted (map (\<lambda>s. sum_list (map Profit (filter (\<lambda>r. State r = s) df))) sts)"
    by (simp add: tot)
  have "f s g = sum_list (map Profit (filter (\<lambda>r. State r = s \<and> Region r = g) df))" for s g
    by (simp add: f_def)
  with res have res': "pivot argsort df =
      Inr \<lparr>index = take MAX_STATES sts,
           columns = map (\<lambda>g. (g, map (\<lambda>s. sum_list (map Profit
                             (filter (\<lambda>r. State r = s \<and> Region r = g) df)))
                           (take MAX_STATES sts))) gs\<rparr>"
    by simp
  from perm srt res' show ?thesis unfolding states_def gs_def by blast
qed

text \<open>
  The matrix is always computed, and it never has a column labelled \<^verbatim>\<open>Total\<close>: the
  helper column of that name is dropped, and with it a region of that name.
\<close>

lemma pivot_has_no_Total_column:
  "\<exists>p. pivot argsort df = Inr p \<and> ''Total'' \<notin> fst ` set (columns p)"
proof -
  define p0 where "p0 = fillna0 (unstack (groupby_sum (\<lambda>r. (State r, Region r)) Profit df))"
  define p1 where "p1 = set_column ''Total'' (row_sums p0) p0"
  define q where "q = argsort (row_sums p0)"
  define p2 where "p2 = \<lparr>index = take_rows (index p1) q,
      columns = map (\<lambda>(g, c). (g, take_rows c q)) (columns p1)\<rparr>"
  define p3 where "p3 = p2\<lparr>columns := AList.delete ''Total'' (columns p2)\<rparr>"
  have look: "map_of (columns p1) ''Total'' = Some (row_sums p0)"
    by (simp add: p1_def set_column_def update_conv')
  have s: "sort_values_by argsort ''Total'' p1 = Inr p2"
    unfolding p2_def q_def by (rule sort_values_by_found [OF look])
  have "''Total'' \<in> fst ` set (columns p1)"
    by (simp add: p1_def set_column_def dom_update)
  then have "''Total'' \<in> fst ` set (columns p2)"
    by (force simp: p2_def)
  then have d: "drop_column ''Total'' p2 = Inr p3"
    by (simp add: drop_column_def p3_def)
  have n3: "''Total'' \<notin> fst ` set (columns p3)"
    by (simp add: p3_def delete_notin_dom)
  then have nh: "''Total'' \<notin> fst ` set (columns (head MAX_STATES p3))"
    by (force simp: head_def)
  have "pivot argsort df = Inr (if MAX_STATES < length (index p3) then head MAX_STATES p3 else p3)"
    unfolding pivot_def Let_def p0_def [symmetric] p1_def [symmetric] s by (simp add: d)
  with n3 nh show ?thesis by auto
qed

lemma groupby_sum_nonempty: "df \<noteq> [] \<Longrightarrow> groupby_sum key val df \<noteq> []"
proof
  assume "df \<noteq> []" and "groupby_sum key val df = []"
  then have "set (map fst (groupby_sum key val df)) = {}" by simp
  then have "key ` set df = {}" by (simp only: groupby_sum_keys)
  with \<open>df \<noteq> []\<close> show False by simp
qed

lemma sort_values_nonempty:
  assumes "argsort_spec argsort" and "xs \<noteq> []"
  shows "sort_values argsort key xs \<noteq> []"
proof -
  have "mset (sort_values argsort key xs) = mset xs"
    unfolding sort_values_def by (rule take_rows_mset [OF assms(1)]) simp
  with assms(2) show ?thesis by auto
qed

lemma iloc0_nonempty: "xs \<noteq> [] \<Longrightarrow> \<exists>x. iloc0 xs = Inr x"
  by (cases xs) (simp_all add: iloc0_def)

lemma aggregation_of_nonempty:
  assumes "argsort_spec argsort" and "df \<noteq> []"
  shows "\<exists>s. aggregation argsort df = Inr s"
proof -
  have "sort_values argsort snd (groupby_sum Region Profit df) \<noteq> []"
    by (rule sort_values_nonempty [OF assms(1) groupby_sum_nonempty [OF assms(2)]])
  then obtain reg where "iloc0 (sort_values argsort snd (groupby_sum Region Profit df)) = Inr reg"
    using iloc0_nonempty by blast
  moreover have "sort_values argsort snd (groupby_sum Sub_Category Profit df) \<noteq> []"
    by (rule sort_values_nonempty [OF assms(1) groupby_sum_nonempty [OF assms(2)]])
  then obtain sub where
    "iloc0 (sort_values argsort snd (groupby_sum Sub_Category Profit df)) = Inr sub"
    using iloc0_nonempty by blast
  ultimately show ?thesis by (simp add: aggregation_def)
qed

text \<open>
  A pass over a non-empty filtered table renders: with a sorting function that
  sorts, no aggregation raises.
\<close>

lemma render_pass_renders:
  assumes "argsort_spec argsort" and "filtered df_full sel \<noteq> []"
  shows "\<exists>s p. render_pass argsort df_full sel = Rendered s p"
proof -
  obtain s where "aggregation argsort (filtered df_full sel) = Inr s"
    using aggregation_of_nonempty [OF assms] by blast
  moreover obtain p where "pivot argsort (filtered df_full sel) = Inr p"
    using pivot_has_no_Total_column by blast
  ultimately show ?thesis
    by (simp add: render_pass_nonempty [OF assms(2)])
qed

text \<open>
  Claim C8. For a table with no region called \<^verbatim>\<open>Total\<close> the matrix is the one
  claimed (\<open>pivot_without_Total_region\<close>). The script keeps the row totals in a
  column that it labels \<^verbatim>\<open>Total\<close> and drops again after sorting. When a region has
  this very name, line 375 overwrites the column of that region with the totals and
  line 376 drops it: here the orders of Utah in the region \<^verbatim>\<open>Total\<close> count in the
  order of the rows (Utah has - 43, Ohio 20), but the matrix has no column for that
  region.
\<close>

theorem pivot_drops_Total_region:
  "Region total_row = ''Total'' \<and>
   pivot stable_argsort [east_row, west_row, total_row] =
     Inr \<lparr>index = [''Utah'', ''Ohio''],
          columns = [(''East'', [0, 20]), (''West'', [- 50, 0])]\<rparr>"
  by code_simp

lemma pivot_of_scenario:
  "pivot stable_argsort [east_row, west_row] =
     Inr \<lparr>index = [''Utah'', ''Ohio''],
          columns = [(''East'', [0, 20]), (''West'', [- 50, 0])]\<rparr>"
  by code_simp

end
